theory Spec2Isabelle
  imports Main "HOL-Library.Word"
begin

section \<open>Data model of dsl/schema.go\<close>

text \<open>
  Pointers to evaluation contexts and Go maps are references into an explicit store
  (see \<open>heap\<close> below); \<open>None\<close> is the nil pointer or the nil map.  Record fields carry the
  initial of their struct (\<open>c_Address\<close> is \<open>ContractSchema.Address_\<close>).  Values of the
  libraries the package builds on (an undecoded \<open>hcl.Body\<close>, a \<open>cty.Value\<close>, a
  \<open>function.Function\<close>, an \<open>abi.ABI\<close>) are type parameters \<open>'b\<close>, \<open>'v\<close>, \<open>'f\<close>, \<open>'a\<close>.
\<close>

type_synonym ref = nat
type_synonym int64 = "64 word"
type_synonym uint64 = "64 word"
type_synonym address = "160 word"
type_synonym hash = "256 word"

datatype error =
    ErrNoIntervalRealtime
  | ErrNoIntervalHistorical
  | ErrIntervalDefinedForHistoricalEvents
  | LibErr string
  | ErrReadingABI string
  | ErrParsingABI
  | Panic

datatype 'b Transform = Transform (t_Options: 'b)

datatype 'b Save = Save (sv_Options: 'b)

record MethodSchema =
  m_BlockOffset :: int64
  m_Name :: string
  m_Inputs :: "string \<rightharpoonup> string"
  m_Outputs :: "string list"

record ('b, 'a) EventSchema =
  e_Name :: string
  e_AbiPath :: string
  e_Outputs :: "string list"
  e_Methods :: "MethodSchema list"
  e_Transforms :: "'b Transform option"
  e_Abi :: "'a option"

record ('b, 'a) ContractSchema =
  c_Address :: string
  c_AbiPath :: string
  c_Methods :: "MethodSchema list"
  c_Events :: "('b, 'a) EventSchema list"
  c_Transforms :: "'b Transform option"
  c_Abi :: "'a option"

record ('b, 'a) QuerySchema =
  q_Name :: string
  q_Chain :: string
  q_ContractSchemas :: "('b, 'a) ContractSchema list"
  q_EventSchemas :: "('b, 'a) EventSchema list"
  q_Saves :: "'b Save"
  q_Filters :: "'b option"
  q_StartBlock :: int64
  q_EndBlock :: int64
  q_BlockInterval :: int64
  q_EvalContext :: "ref option"

record ('b, 'a, 'v) DynamicSchema =
  s_StartTime :: int64
  s_EndTime :: int64
  s_TimeInterval :: int64
  s_StartBlock :: int64
  s_EndBlock :: int64
  s_BlockInterval :: int64
  s_Variables :: "string \<rightharpoonup> 'v"
  s_SchemaConfig :: 'b
  s_QuerySchemas :: "('b, 'a) QuerySchema list"
  s_EvalContext :: "ref option"

record ('b, 'v) LoopSchema =
  l_Items :: "'v list"
  l_QuerySchema :: 'b

text \<open>
  Modelled from the spec: the package \<open>types\<close> (\<open>ApolloOpts\<close>, \<open>ResultType\<close>,
  \<open>CallResult\<close>, \<open>Chain\<close>) is not part of the source file.  The fields are the ones
  schema.go reads; a result kind is a method call, a contract-scoped event or a global
  event; a chain identifier is a string.
\<close>

record ApolloOpts =
  Realtime :: bool

datatype ResultType = Event | GlobalEvent | Method

text \<open>A Go value held in an \<open>interface{}\<close>, as far as the type switches of
  \<open>GenerateContextVars\<close> tell values apart.\<close>

datatype 'o goval =
    GoString string
  | GoAddress address
  | GoUint uint64
  | GoChain string
  | GoOther 'o

record 'o CallResult =
  cr_Type :: ResultType
  cr_QueryName :: string
  cr_Identifier :: string
  cr_Chain :: string
  cr_ContractAddress :: address
  cr_BlockNumber :: uint64
  cr_Timestamp :: uint64
  cr_BlockHash :: hash
  cr_TxHash :: hash
  cr_EventName :: string
  cr_TxIndex :: uint64
  cr_Inputs :: "string \<rightharpoonup> 'o goval"
  cr_Outputs :: "string \<rightharpoonup> 'o goval"

subsection \<open>Validate\<close>

text \<open>The two flags are assigned, not accumulated, for every contract visited.\<close>

fun scanContracts :: "('b, 'a) ContractSchema list \<Rightarrow> bool \<times> bool \<Rightarrow> bool \<times> bool" where
  "scanContracts [] flags = flags"
| "scanContracts (c # cs) flags =
     scanContracts cs (length (c_Methods c) > 0, length (c_Events c) > 0)"

fun scanQueries :: "('b, 'a) QuerySchema list \<Rightarrow> bool \<times> bool \<Rightarrow> bool \<times> bool" where
  "scanQueries [] flags = flags"
| "scanQueries (q # qs) flags = scanQueries qs (scanContracts (q_ContractSchemas q) flags)"

definition validateEvents :: "('b, 'a, 'v) DynamicSchema \<Rightarrow> ApolloOpts \<Rightarrow> bool \<Rightarrow> error option" where
  "validateEvents s opts hasEvents =
     (if hasEvents then
        (if \<not> Realtime opts then
           (if s_BlockInterval s \<noteq> 0 then Some ErrIntervalDefinedForHistoricalEvents
            else if s_TimeInterval s \<noteq> 0 then Some ErrIntervalDefinedForHistoricalEvents
            else None)
         else None)
      else None)"

definition Validate :: "('b, 'a, 'v) DynamicSchema \<Rightarrow> ApolloOpts \<Rightarrow> error option" where
  "Validate s opts =
     (case scanQueries (s_QuerySchemas s) (False, False) of (hasMethods, hasEvents) \<Rightarrow>
        if hasMethods then
          (if Realtime opts \<and> s_BlockInterval s = 0 \<and> s_TimeInterval s = 0
           then Some ErrNoIntervalRealtime
           else if ((s_StartBlock s \<noteq> 0 \<and> s_EndBlock s \<noteq> 0) \<or> (s_StartTime s \<noteq> 0 \<and> s_EndTime s \<noteq> 0))
                   \<and> s_BlockInterval s = 0 \<and> s_TimeInterval s = 0
           then Some ErrNoIntervalHistorical
           else validateEvents s opts hasEvents)
        else validateEvents s opts hasEvents)"

subsection \<open>The libraries and the evaluation contexts\<close>

datatype ctytype = CtyString | CtyNumber

text \<open>
  What a decoder sees of an evaluation context: the contents of its variable table and of
  its function table (a nil table reads as empty); \<open>None\<close> is the nil context.
\<close>

type_synonym ('v, 'f) ctxview = "((string \<rightharpoonup> 'v) \<times> (string \<rightharpoonup> 'f)) option"

text \<open>
  The functions of go-ethereum, hcl and go-cty that the evaluator calls, and
  \<open>BuildChainFunctions\<close> of this package (defined in another file), are parameters.
  \<open>ToCtyValue\<close> is \<open>gocty.ToCtyValue\<close> with its error dropped, as the callers drop it.
  A decoder returns the first error of its diagnostics (\<open>Inl\<close>) or the decoded value.
\<close>

record ('b, 'v, 'f, 'o, 'p) extern =
  HexToAddress :: "string \<Rightarrow> address"
  AddressString :: "address \<Rightarrow> string"
  HashString :: "hash \<Rightarrow> string"
  ToCtyValue :: "'o goval \<Rightarrow> ctytype \<Rightarrow> 'v"
  DecodeBody :: "'b \<Rightarrow> ('v, 'f) ctxview \<Rightarrow> string + (string \<rightharpoonup> 'v)"
  HcldecDecode :: "'b \<Rightarrow> ('v, 'f) ctxview \<Rightarrow> string + 'v"
  FromCtyValue :: "'v \<Rightarrow> string + bool list"
  BuildChainFunctions :: "'p \<Rightarrow> string \<Rightarrow> int \<Rightarrow> (string \<rightharpoonup> 'f)"

text \<open>
  \<open>hcl.EvalContext\<close>: both tables are Go maps, that is references to map objects.
  The store holds the context objects, the variable maps and the function maps, and the
  next unused reference.
\<close>

record EvalContext =
  Variables :: "ref option"
  Functions :: "ref option"

record ('v, 'f) heap =
  ctxs :: "ref \<Rightarrow> EvalContext"
  vmaps :: "ref \<Rightarrow> (string \<rightharpoonup> 'v)"
  fmaps :: "ref \<Rightarrow> (string \<rightharpoonup> 'f)"
  next_ref :: ref

definition ctxVars :: "('v, 'f) heap \<Rightarrow> ref \<Rightarrow> (string \<rightharpoonup> 'v)" where
  "ctxVars h c = (case Variables (ctxs h c) of None \<Rightarrow> Map.empty | Some r \<Rightarrow> vmaps h r)"

definition ctxFuns :: "('v, 'f) heap \<Rightarrow> ref \<Rightarrow> (string \<rightharpoonup> 'f)" where
  "ctxFuns h c = (case Functions (ctxs h c) of None \<Rightarrow> Map.empty | Some r \<Rightarrow> fmaps h r)"

definition readCtx :: "('v, 'f) heap \<Rightarrow> ref option \<Rightarrow> ('v, 'f) ctxview" where
  "readCtx h ctx = map_option (\<lambda>c. (ctxVars h c, ctxFuns h c)) ctx"

text \<open>A new variable map (\<open>make\<close> or a map literal) and a context whose address is
  taken take the next unused reference.\<close>

definition newMap :: "(string \<rightharpoonup> 'v) \<Rightarrow> ('v, 'f) heap \<Rightarrow> ref \<times> ('v, 'f) heap" where
  "newMap m h = (next_ref h, h\<lparr>vmaps := (vmaps h)(next_ref h := m), next_ref := Suc (next_ref h)\<rparr>)"

definition newContext :: "EvalContext \<Rightarrow> ('v, 'f) heap \<Rightarrow> ref \<times> ('v, 'f) heap" where
  "newContext c h = (next_ref h, h\<lparr>ctxs := (ctxs h)(next_ref h := c), next_ref := Suc (next_ref h)\<rparr>)"

text \<open>\<open>for k, v := range m { ctx.Variables[k] = v }\<close>: nothing happens for an empty
  \<open>m\<close>; the first assignment panics on a nil context or a nil map.\<close>

definition assignVars ::
  "ref option \<Rightarrow> (string \<rightharpoonup> 'v) \<Rightarrow> ('v, 'f) heap \<Rightarrow> error option \<times> ('v, 'f) heap" where
  "assignVars ctx m h =
     (if m = Map.empty then (None, h)
      else case ctx of
        None \<Rightarrow> (Some Panic, h)
      | Some c \<Rightarrow>
          (case Variables (ctxs h c) of
             None \<Rightarrow> (Some Panic, h)
           | Some r \<Rightarrow> (None, h\<lparr>vmaps := (vmaps h)(r := vmaps h r ++ m)\<rparr>)))"

definition assignFuns ::
  "ref option \<Rightarrow> (string \<rightharpoonup> 'f) \<Rightarrow> ('v, 'f) heap \<Rightarrow> error option \<times> ('v, 'f) heap" where
  "assignFuns ctx m h =
     (if m = Map.empty then (None, h)
      else case ctx of
        None \<Rightarrow> (Some Panic, h)
      | Some c \<Rightarrow>
          (case Functions (ctxs h c) of
             None \<Rightarrow> (Some Panic, h)
           | Some r \<Rightarrow> (None, h\<lparr>fmaps := (fmaps h)(r := fmaps h r ++ m)\<rparr>)))"

subsection \<open>GenerateContextVars\<close>

definition inputVar :: "('b, 'v, 'f, 'o, 'p) extern \<Rightarrow> 'o goval \<Rightarrow> 'v" where
  "inputVar E v =
     (case v of
        GoString s \<Rightarrow> ToCtyValue E v CtyString
      | _ \<Rightarrow> ToCtyValue E v CtyNumber)"

definition outputVar :: "('b, 'v, 'f, 'o, 'p) extern \<Rightarrow> 'o goval \<Rightarrow> 'v" where
  "outputVar E v =
     (case v of
        GoAddress a \<Rightarrow> ToCtyValue E (GoString (AddressString E a)) CtyString
      | GoString s \<Rightarrow> ToCtyValue E v CtyString
      | _ \<Rightarrow> ToCtyValue E v CtyNumber)"

definition baseVars :: "('b, 'v, 'f, 'o, 'p) extern \<Rightarrow> 'o CallResult \<Rightarrow> (string \<rightharpoonup> 'v)" where
  "baseVars E cr =
     [''contract_address'' \<mapsto> ToCtyValue E (GoString (AddressString E (cr_ContractAddress cr))) CtyString,
      ''blocknumber'' \<mapsto> ToCtyValue E (GoUint (cr_BlockNumber cr)) CtyNumber,
      ''timestamp'' \<mapsto> ToCtyValue E (GoUint (cr_Timestamp cr)) CtyNumber,
      ''block_hash'' \<mapsto> ToCtyValue E (GoString (HashString E (cr_BlockHash cr))) CtyString,
      ''chain'' \<mapsto> ToCtyValue E (GoChain (cr_Chain cr)) CtyString]"

definition eventVars :: "('b, 'v, 'f, 'o, 'p) extern \<Rightarrow> 'o CallResult \<Rightarrow> (string \<rightharpoonup> 'v)" where
  "eventVars E cr =
     (if cr_Type cr \<noteq> Method then
        [''tx_hash'' \<mapsto> ToCtyValue E (GoString (HashString E (cr_TxHash cr))) CtyString,
         ''event_name'' \<mapsto> ToCtyValue E (GoString (cr_EventName cr)) CtyString,
         ''tx_index'' \<mapsto> ToCtyValue E (GoUint (cr_TxIndex cr)) CtyNumber]
      else Map.empty)"

text \<open>The two \<open>range\<close> loops write one entry per key of a Go map, so their effect is
  the override \<open>++\<close> whatever the iteration order.\<close>

definition GenerateContextVars ::
  "('b, 'v, 'f, 'o, 'p) extern \<Rightarrow> 'o CallResult \<Rightarrow> (string \<rightharpoonup> 'v)" where
  "GenerateContextVars E cr =
     baseVars E cr ++ eventVars E cr
       ++ (\<lambda>k. map_option (inputVar E) (cr_Inputs cr k))
       ++ (\<lambda>k. map_option (outputVar E) (cr_Outputs cr k))"

subsection \<open>EvalTransforms\<close>

definition OutputName :: "('b, 'a) EventSchema \<Rightarrow> string" where
  "OutputName e = e_Name e @ ''_events''"

definition Address :: "('b, 'v, 'f, 'o, 'p) extern \<Rightarrow> ('b, 'a) ContractSchema \<Rightarrow> address" where
  "Address E c = HexToAddress E (c_Address c)"

text \<open>
  The two loops of \<open>EvalTransforms\<close> have the same body; \<open>transformLoop\<close> is that body
  over the nodes' identifiers and Transform pointers.  A node without Transform returns
  nil from the whole function.
\<close>

fun transformLoop ::
  "('b, 'v, 'f, 'o, 'p) extern \<Rightarrow> ref option \<Rightarrow> string \<Rightarrow> (string \<times> 'b Transform option) list
     \<Rightarrow> ('v, 'f) heap \<Rightarrow> error option \<times> ('v, 'f) heap" where
  "transformLoop E ctx identifier [] h = (None, h)"
| "transformLoop E ctx identifier ((name, tr) # nodes) h =
     (case tr of
        None \<Rightarrow> (None, h)
      | Some t \<Rightarrow>
          if name = identifier then
            (case DecodeBody E (t_Options t) (readCtx h ctx) of
               Inl d \<Rightarrow> (Some (LibErr d), h)
             | Inr mv \<Rightarrow>
                 (case assignVars ctx mv h of
                    (Some e, h') \<Rightarrow> (Some e, h')
                  | (None, h') \<Rightarrow> transformLoop E ctx identifier nodes h'))
          else transformLoop E ctx identifier nodes h)"

definition eventNodes :: "('b, 'a) QuerySchema \<Rightarrow> (string \<times> 'b Transform option) list" where
  "eventNodes q = map (\<lambda>event. (OutputName event, e_Transforms event)) (q_EventSchemas q)"

definition contractNodes ::
  "('b, 'v, 'f, 'o, 'p) extern \<Rightarrow> ('b, 'a) QuerySchema \<Rightarrow> (string \<times> 'b Transform option) list" where
  "contractNodes E q =
     map (\<lambda>c. (AddressString E (Address E c), c_Transforms c)) (q_ContractSchemas q)"

definition EvalTransforms ::
  "('b, 'v, 'f, 'o, 'p) extern \<Rightarrow> ('b, 'a) QuerySchema \<Rightarrow> ResultType \<Rightarrow> string
     \<Rightarrow> ('v, 'f) heap \<Rightarrow> error option \<times> ('v, 'f) heap" where
  "EvalTransforms E q tp identifier h =
     (if tp = GlobalEvent
      then transformLoop E (q_EvalContext q) identifier (eventNodes q) h
      else transformLoop E (q_EvalContext q) identifier (contractNodes E q) h)"

subsection \<open>EvalFilter\<close>

text \<open>The loop either returns from the function (\<open>Inl\<close>) or leaves the last decoded
  list in \<open>filters\<close> (\<open>Inr\<close>).\<close>

fun filterLoop ::
  "('b, 'v, 'f, 'o, 'p) extern \<Rightarrow> ('v, 'f) heap \<Rightarrow> string \<Rightarrow> ('b, 'a) QuerySchema list
     \<Rightarrow> bool list \<Rightarrow> (error + bool) + bool list" where
  "filterLoop E h queryName [] filters = Inr filters"
| "filterLoop E h queryName (q # qs) filters =
     (if q_Name q = queryName then
        (case q_Filters q of
           None \<Rightarrow> Inl (Inr True)
         | Some fb \<Rightarrow>
             (case HcldecDecode E fb (readCtx h (q_EvalContext q)) of
                Inl d \<Rightarrow> Inl (Inl (LibErr d))
              | Inr v \<Rightarrow>
                  (case FromCtyValue E v of
                     Inl d \<Rightarrow> Inl (Inl (LibErr d))
                   | Inr bs \<Rightarrow> filterLoop E h queryName qs bs)))
      else filterLoop E h queryName qs filters)"

definition EvalFilter ::
  "('b, 'v, 'f, 'o, 'p) extern \<Rightarrow> ('b, 'a, 'v) DynamicSchema \<Rightarrow> string \<Rightarrow> ('v, 'f) heap
     \<Rightarrow> error + bool" where
  "EvalFilter E s queryName h =
     (case filterLoop E h queryName (s_QuerySchemas s) [] of
        Inl r \<Rightarrow> r
      | Inr filters \<Rightarrow> Inr (list_all (\<lambda>result. result) filters))"

subsection \<open>EvalSave\<close>

definition ensureVariables :: "ref \<Rightarrow> ('v, 'f) heap \<Rightarrow> ('v, 'f) heap" where
  "ensureVariables c h =
     (if Variables (ctxs h c) = None
      then (case newMap Map.empty h of
              (r, h') \<Rightarrow> h'\<lparr>ctxs := (ctxs h')(c := (ctxs h' c)\<lparr>Variables := Some r\<rparr>)\<rparr>)
      else h)"

text \<open>The body of the loop of \<open>EvalSave\<close> for a query whose name is the result's:
  an error or panic (\<open>Inl\<close>), or the decoded Save output.\<close>

definition saveQuery ::
  "('b, 'v, 'f, 'o, 'p) extern \<Rightarrow> 'p \<Rightarrow> 'o CallResult \<Rightarrow> ('b, 'a) QuerySchema
     \<Rightarrow> ('v, 'f) heap \<Rightarrow> (error + (string \<rightharpoonup> 'v)) \<times> ('v, 'f) heap" where
  "saveQuery E provider res q h =
     (case q_EvalContext q of
        None \<Rightarrow> (Inl Panic, h)
      | Some c \<Rightarrow>
          (case assignVars (Some c) (GenerateContextVars E res) (ensureVariables c h) of
             (Some e, h1) \<Rightarrow> (Inl e, h1)
           | (None, h1) \<Rightarrow>
               (case assignFuns (Some c)
                       (BuildChainFunctions E provider (cr_Chain res) (sint (cr_BlockNumber res))) h1 of
                  (Some e, h2) \<Rightarrow> (Inl e, h2)
                | (None, h2) \<Rightarrow>
                    (case EvalTransforms E q (cr_Type res) (cr_Identifier res) h2 of
                       (Some e, h3) \<Rightarrow> (Inl e, h3)
                     | (None, h3) \<Rightarrow>
                         (case DecodeBody E (sv_Options (q_Saves q)) (readCtx h3 (q_EvalContext q)) of
                            Inl d \<Rightarrow> (Inl (LibErr d), h3)
                          | Inr outputs \<Rightarrow> (Inr outputs, h3))))))"

fun saveLoop ::
  "('b, 'v, 'f, 'o, 'p) extern \<Rightarrow> 'p \<Rightarrow> 'o CallResult \<Rightarrow> ('b, 'a) QuerySchema list
     \<Rightarrow> (string \<rightharpoonup> 'v) \<Rightarrow> ('v, 'f) heap \<Rightarrow> (error + (string \<rightharpoonup> 'v)) \<times> ('v, 'f) heap" where
  "saveLoop E provider res [] outputs h = (Inr outputs, h)"
| "saveLoop E provider res (q # qs) outputs h =
     (if q_Name q = cr_QueryName res then
        (case saveQuery E provider res q h of
           (Inl e, h') \<Rightarrow> (Inl e, h')
         | (Inr outputs', h') \<Rightarrow> saveLoop E provider res qs outputs' h')
      else saveLoop E provider res qs outputs h)"

text \<open>The result is \<open>Inl err\<close> for \<open>(nil, err)\<close>, \<open>Inr None\<close> for \<open>(nil, nil)\<close> and
  \<open>Inr (Some outputs)\<close> for \<open>(outputs, nil)\<close>.\<close>

definition EvalSave ::
  "('b, 'v, 'f, 'o, 'p) extern \<Rightarrow> ('b, 'a, 'v) DynamicSchema \<Rightarrow> 'p \<Rightarrow> 'o CallResult
     \<Rightarrow> ('v, 'f) heap \<Rightarrow> (error + (string \<rightharpoonup> 'v) option) \<times> ('v, 'f) heap" where
  "EvalSave E s provider res h =
     (case saveLoop E provider res (s_QuerySchemas s) Map.empty h of
        (Inl e, h') \<Rightarrow> (Inl e, h')
      | (Inr outputs, h') \<Rightarrow>
          (case EvalFilter E s (cr_QueryName res) h' of
             Inl e \<Rightarrow> (Inl e, h')
           | Inr ok \<Rightarrow> if \<not> ok then (Inr None, h') else (Inr (Some outputs), h')))"

subsection \<open>InitialContext and NewSchema\<close>

text \<open>
  The file system, the parser, the structural decoders and the ABI parser are parameters,
  with the package variable \<open>Functions\<close> (a map, so a reference) and the value of
  \<open>cty.NumberIntVal(time.Now().UnixMilli() / 1000)\<close>.  \<open>DecodeSchema\<close> gives the
  tagged fields of the schema, \<open>DecodeTopLevel\<close> the loop block and the query blocks.
\<close>

record ('b, 'a, 'v, 'f) loader =
  Join :: "string \<Rightarrow> string \<Rightarrow> string"
  ReadFile :: "string \<Rightarrow> string + string"
  ParseConfig :: "string \<Rightarrow> string \<Rightarrow> string + 'b"
  DecodeSchema :: "'b \<Rightarrow> ('v, 'f) ctxview \<Rightarrow> string + ('b, 'a, 'v) DynamicSchema"
  DecodeTopLevel ::
    "'b \<Rightarrow> ('v, 'f) ctxview \<Rightarrow> string + (('b, 'v) LoopSchema option \<times> ('b, 'a) QuerySchema list)"
  DecodeLoopLevel :: "'b \<Rightarrow> ('v, 'f) ctxview \<Rightarrow> string + ('b, 'a) QuerySchema list"
  Open :: "string \<Rightarrow> string + string"
  AbiJSON :: "string \<Rightarrow> string + 'a"
  dsl_Functions :: "ref option"
  Now :: 'v

definition InitialContext ::
  "('b, 'a, 'v, 'f) loader \<Rightarrow> ('v, 'f) heap \<Rightarrow> EvalContext \<times> ('v, 'f) heap" where
  "InitialContext L h =
     (case newMap [''now'' \<mapsto> Now L] h of
        (r, h') \<Rightarrow> (\<lparr>Variables = Some r, Functions = dsl_Functions L\<rparr>, h'))"

text \<open>The loop over the items of a loop block; \<open>qs\<close> is \<open>s.QuerySchemas\<close>.\<close>

fun expandLoop ::
  "('b, 'a, 'v, 'f) loader \<Rightarrow> 'b \<Rightarrow> 'v list \<Rightarrow> ('b, 'a) QuerySchema list \<Rightarrow> ('v, 'f) heap
     \<Rightarrow> (error + ('b, 'a) QuerySchema list) \<times> ('v, 'f) heap" where
  "expandLoop L template [] qs h = (Inr qs, h)"
| "expandLoop L template (item # items) qs h =
     (case InitialContext L h of
        (c0, h1) \<Rightarrow>
          (case newMap [''item'' \<mapsto> item] h1 of
             (r, h2) \<Rightarrow>
               (case newContext (c0\<lparr>Variables := Some r\<rparr>) h2 of
                  (newCtx, h3) \<Rightarrow>
                    (case DecodeLoopLevel L template (readCtx h3 (Some newCtx)) of
                       Inl d \<Rightarrow> (Inl (LibErr d), h3)
                     | Inr queries \<Rightarrow> expandLoop L template items (qs @ queries) h3))))"

definition loadAbi :: "('b, 'a, 'v, 'f) loader \<Rightarrow> string \<Rightarrow> string \<Rightarrow> error + 'a" where
  "loadAbi L confDir abiPath =
     (case Open L (Join L confDir abiPath) of
        Inl e \<Rightarrow> Inl (ErrReadingABI e)
      | Inr f \<Rightarrow> (case AbiJSON L f of Inl e \<Rightarrow> Inl ErrParsingABI | Inr abi \<Rightarrow> Inr abi))"

fun loadEventAbis ::
  "('b, 'a, 'v, 'f) loader \<Rightarrow> string \<Rightarrow> ('b, 'a) EventSchema list
     \<Rightarrow> error + ('b, 'a) EventSchema list" where
  "loadEventAbis L confDir [] = Inr []"
| "loadEventAbis L confDir (event # events) =
     (case loadAbi L confDir (e_AbiPath event) of
        Inl e \<Rightarrow> Inl e
      | Inr abi \<Rightarrow>
          (case loadEventAbis L confDir events of
             Inl e \<Rightarrow> Inl e
           | Inr events' \<Rightarrow> Inr (event\<lparr>e_Abi := Some abi\<rparr> # events')))"

fun loadContractAbis ::
  "('b, 'a, 'v, 'f) loader \<Rightarrow> string \<Rightarrow> ('b, 'a) ContractSchema list
     \<Rightarrow> error + ('b, 'a) ContractSchema list" where
  "loadContractAbis L confDir [] = Inr []"
| "loadContractAbis L confDir (contract # contracts) =
     (case loadAbi L confDir (c_AbiPath contract) of
        Inl e \<Rightarrow> Inl e
      | Inr abi \<Rightarrow>
          (case loadContractAbis L confDir contracts of
             Inl e \<Rightarrow> Inl e
           | Inr contracts' \<Rightarrow> Inr (contract\<lparr>c_Abi := Some abi\<rparr> # contracts')))"

text \<open>The last loop of \<open>NewSchema\<close>: every query gets the pointer \<open>s.EvalContext\<close>,
  its events and contracts their ABIs; the first failure returns.\<close>

fun attachQueries ::
  "('b, 'a, 'v, 'f) loader \<Rightarrow> string \<Rightarrow> ref option \<Rightarrow> ('b, 'a) QuerySchema list
     \<Rightarrow> error + ('b, 'a) QuerySchema list" where
  "attachQueries L confDir ctx [] = Inr []"
| "attachQueries L confDir ctx (query # queries) =
     (case loadEventAbis L confDir (q_EventSchemas query) of
        Inl e \<Rightarrow> Inl e
      | Inr events \<Rightarrow>
          (case loadContractAbis L confDir (q_ContractSchemas query) of
             Inl e \<Rightarrow> Inl e
           | Inr contracts \<Rightarrow>
               (case attachQueries L confDir ctx queries of
                  Inl e \<Rightarrow> Inl e
                | Inr queries' \<Rightarrow>
                    Inr (query\<lparr>q_EvalContext := ctx, q_EventSchemas := events,
                                q_ContractSchemas := contracts\<rparr> # queries'))))"

text \<open>\<open>NewSchema\<close> from the decoding of the top level on: \<open>s\<close> holds the decoded
  fields and the pointer to the schema context.\<close>

definition loadQueries ::
  "('b, 'a, 'v, 'f) loader \<Rightarrow> string \<Rightarrow> ('b, 'a, 'v) DynamicSchema \<Rightarrow> ('v, 'f) heap
     \<Rightarrow> (error + ('b, 'a, 'v) DynamicSchema) \<times> ('v, 'f) heap" where
  "loadQueries L confDir s h =
     (case DecodeTopLevel L (s_SchemaConfig s) (readCtx h (s_EvalContext s)) of
        Inl d \<Rightarrow> (Inl (LibErr d), h)
      | Inr (loop, queries) \<Rightarrow>
          (case (case loop of
                   None \<Rightarrow> (Inr (s_QuerySchemas s @ queries), h)
                 | Some l \<Rightarrow>
                     expandLoop L (l_QuerySchema l) (l_Items l) (s_QuerySchemas s @ queries) h) of
             (Inl e, h') \<Rightarrow> (Inl e, h')
           | (Inr qs, h') \<Rightarrow>
               (case attachQueries L confDir (s_EvalContext s) qs of
                  Inl e \<Rightarrow> (Inl e, h')
                | Inr qs' \<Rightarrow> (Inr (s\<lparr>s_QuerySchemas := qs'\<rparr>), h'))))"

definition NewSchema ::
  "('b, 'a, 'v, 'f) loader \<Rightarrow> string \<Rightarrow> ('v, 'f) heap
     \<Rightarrow> (error + ('b, 'a, 'v) DynamicSchema) \<times> ('v, 'f) heap" where
  "NewSchema L confDir h =
     (case ReadFile L (Join L confDir ''schema.hcl'') of
        Inl e \<Rightarrow> (Inl (LibErr e), h)
      | Inr f \<Rightarrow>
          (case ParseConfig L f (Join L confDir ''schema.hcl'') of
             Inl d \<Rightarrow> (Inl (LibErr d), h)
           | Inr fileBody \<Rightarrow>
               (case InitialContext L h of
                  (c0, h1) \<Rightarrow>
                    (case newContext c0 h1 of
                       (schemaContext, h2) \<Rightarrow>
                         (case DecodeSchema L fileBody (readCtx h2 (Some schemaContext)) of
                            Inl d \<Rightarrow> (Inl (LibErr d), h2)
                          | Inr decoded \<Rightarrow>
                              (case assignVars (Some schemaContext) (s_Variables decoded) h2 of
                                 (Some e, h3) \<Rightarrow> (Inl e, h3)
                               | (None, h3) \<Rightarrow>
                                   loadQueries L confDir
                                     (decoded\<lparr>s_QuerySchemas := [],
                                              s_EvalContext := Some schemaContext\<rparr>) h3))))))"

section \<open>A concrete instance of the parameters\<close>

text \<open>
  The examples below run the evaluator on a small instance of the libraries: values are
  strings, integers, booleans and lists; a body is a list of attributes whose expressions
  are literals or variable references; a chain function is recorded by its name and the
  chain and block it is closed over.
\<close>

datatype cty = NilVal | StringVal string | NumberIntVal int | BoolVal bool | ListVal "cty list"

datatype expr = Lit cty | Var string

type_synonym body = "(string \<times> expr) list"

type_synonym chainfn = "string \<times> string \<times> int"

fun evalExpr :: "(cty, chainfn) ctxview \<Rightarrow> expr \<Rightarrow> string + cty" where
  "evalExpr ctx (Lit v) = Inr v"
| "evalExpr None (Var x) = Inl ''Variables not allowed''"
| "evalExpr (Some (vars, funs)) (Var x) =
     (case vars x of None \<Rightarrow> Inl ''Unknown variable'' | Some v \<Rightarrow> Inr v)"

fun demoDecodeBody :: "body \<Rightarrow> (cty, chainfn) ctxview \<Rightarrow> string + (string \<rightharpoonup> cty)" where
  "demoDecodeBody [] ctx = Inr Map.empty"
| "demoDecodeBody ((k, e) # attrs) ctx =
     (case evalExpr ctx e of
        Inl d \<Rightarrow> Inl d
      | Inr v \<Rightarrow>
          (case demoDecodeBody attrs ctx of
             Inl d \<Rightarrow> Inl d
           | Inr m \<Rightarrow> Inr (m(k \<mapsto> v))))"

definition demoHcldecDecode :: "body \<Rightarrow> (cty, chainfn) ctxview \<Rightarrow> string + cty" where
  "demoHcldecDecode b ctx =
     (case map_of b ''filter'' of
        None \<Rightarrow> Inl ''Missing required argument''
      | Some e \<Rightarrow> evalExpr ctx e)"

fun boolsOf :: "cty list \<Rightarrow> string + bool list" where
  "boolsOf [] = Inr []"
| "boolsOf (BoolVal b # vs) =
     (case boolsOf vs of Inl d \<Rightarrow> Inl d | Inr bs \<Rightarrow> Inr (b # bs))"
| "boolsOf (v # vs) = Inl ''bool required''"

definition demoFromCtyValue :: "cty \<Rightarrow> string + bool list" where
  "demoFromCtyValue v = (case v of ListVal vs \<Rightarrow> boolsOf vs | _ \<Rightarrow> Inl ''list required'')"

definition demoToCtyValue :: "int goval \<Rightarrow> ctytype \<Rightarrow> cty" where
  "demoToCtyValue v t =
     (case t of
        CtyString \<Rightarrow>
          (case v of GoString s \<Rightarrow> StringVal s | GoChain s \<Rightarrow> StringVal s | _ \<Rightarrow> NilVal)
      | CtyNumber \<Rightarrow>
          (case v of GoUint n \<Rightarrow> NumberIntVal (uint n) | GoOther n \<Rightarrow> NumberIntVal n | _ \<Rightarrow> NilVal))"

definition demoHexToAddress :: "string \<Rightarrow> address" where
  "demoHexToAddress s = (if s = ''0x0a'' then 10 else if s = ''0x0b'' then 11 else 0)"

definition demoAddressString :: "address \<Rightarrow> string" where
  "demoAddressString a =
     (if a = 10 then ''0x000000000000000000000000000000000000000A''
      else if a = 11 then ''0x000000000000000000000000000000000000000b''
      else ''0x0000000000000000000000000000000000000000'')"

definition demoHashString :: "hash \<Rightarrow> string" where
  "demoHashString x = (if x = 0 then ''0x00'' else ''0x01'')"

definition demoBuildChainFunctions :: "unit \<Rightarrow> string \<Rightarrow> int \<Rightarrow> (string \<rightharpoonup> chainfn)" where
  "demoBuildChainFunctions provider chain blockNumber =
     [''balance'' \<mapsto> (''balance'', chain, blockNumber),
      ''token_balance'' \<mapsto> (''token_balance'', chain, blockNumber)]"

definition demoExtern :: "(body, cty, chainfn, int, unit) extern" where
  "demoExtern =
     \<lparr>HexToAddress = demoHexToAddress, AddressString = demoAddressString,
      HashString = demoHashString, ToCtyValue = demoToCtyValue,
      DecodeBody = demoDecodeBody, HcldecDecode = demoHcldecDecode,
      FromCtyValue = demoFromCtyValue, BuildChainFunctions = demoBuildChainFunctions\<rparr>"

definition mkContract ::
  "string \<Rightarrow> MethodSchema list \<Rightarrow> (body, unit) EventSchema list \<Rightarrow> body Transform option
     \<Rightarrow> (body, unit) ContractSchema" where
  "mkContract addr methods events tr =
     \<lparr>c_Address = addr, c_AbiPath = ''abi.json'', c_Methods = methods, c_Events = events,
      c_Transforms = tr, c_Abi = None\<rparr>"

definition mkEvent :: "string \<Rightarrow> body Transform option \<Rightarrow> (body, unit) EventSchema" where
  "mkEvent name tr =
     \<lparr>e_Name = name, e_AbiPath = ''abi.json'', e_Outputs = [], e_Methods = [],
      e_Transforms = tr, e_Abi = None\<rparr>"

definition mkMethod :: "string \<Rightarrow> MethodSchema" where
  "mkMethod name =
     \<lparr>m_BlockOffset = 0, m_Name = name, m_Inputs = Map.empty, m_Outputs = []\<rparr>"

definition mkQuery ::
  "string \<Rightarrow> (body, unit) ContractSchema list \<Rightarrow> (body, unit) EventSchema list \<Rightarrow> body
     \<Rightarrow> body option \<Rightarrow> ref option \<Rightarrow> (body, unit) QuerySchema" where
  "mkQuery name contracts events save filters ctx =
     \<lparr>q_Name = name, q_Chain = ''ethereum'', q_ContractSchemas = contracts,
      q_EventSchemas = events, q_Saves = Save save, q_Filters = filters, q_StartBlock = 0,
      q_EndBlock = 0, q_BlockInterval = 0, q_EvalContext = ctx\<rparr>"

definition mkSchema :: "(body, unit) QuerySchema list \<Rightarrow> ref option \<Rightarrow> (body, unit, cty) DynamicSchema" where
  "mkSchema queries ctx =
     \<lparr>s_StartTime = 0, s_EndTime = 0, s_TimeInterval = 0, s_StartBlock = 0, s_EndBlock = 0,
      s_BlockInterval = 0, s_Variables = Map.empty, s_SchemaConfig = [],
      s_QuerySchemas = queries, s_EvalContext = ctx\<rparr>"

definition mkResult :: "ResultType \<Rightarrow> string \<Rightarrow> string \<Rightarrow> int CallResult" where
  "mkResult tp queryName identifier =
     \<lparr>cr_Type = tp, cr_QueryName = queryName, cr_Identifier = identifier,
      cr_Chain = ''ethereum'', cr_ContractAddress = 10, cr_BlockNumber = 100,
      cr_Timestamp = 1700000000, cr_BlockHash = 1, cr_TxHash = 1, cr_EventName = ''Transfer'',
      cr_TxIndex = 3, cr_Inputs = Map.empty, cr_Outputs = Map.empty\<rparr>"

text \<open>A store as \<open>NewSchema\<close> leaves it: one context object (reference 1) whose variable
  table is the map at 0 and whose function table is the map at 0 of the function maps.\<close>

definition demoHeap :: "(cty, chainfn) heap" where
  "demoHeap =
     \<lparr>ctxs = (\<lambda>r. if r = 1 then \<lparr>Variables = Some 0, Functions = Some 0\<rparr>
                   else \<lparr>Variables = None, Functions = None\<rparr>),
      vmaps = (\<lambda>r. if r = 0 then [''now'' \<mapsto> NumberIntVal 1700000000] else Map.empty),
      fmaps = (\<lambda>r. Map.empty),
      next_ref = 2\<rparr>"

section \<open>Notions used in the statements\<close>

subsection \<open>Validate\<close>

text \<open>The contracts of a schema in the order the loops of \<open>Validate\<close> visit them, and
  the conditions of its rules on the fields it reads.\<close>

definition allContracts :: "('b, 'a, 'v) DynamicSchema \<Rightarrow> ('b, 'a) ContractSchema list" where
  "allContracts s = concat (map q_ContractSchemas (s_QuerySchemas s))"

definition anyMethods :: "('b, 'a, 'v) DynamicSchema \<Rightarrow> bool" where
  "anyMethods s = list_ex (\<lambda>c. c_Methods c \<noteq> []) (allContracts s)"

definition anyEvents :: "('b, 'a, 'v) DynamicSchema \<Rightarrow> bool" where
  "anyEvents s = list_ex (\<lambda>c. c_Events c \<noteq> []) (allContracts s)"

definition noInterval :: "('b, 'a, 'v) DynamicSchema \<Rightarrow> bool" where
  "noInterval s = (s_BlockInterval s = 0 \<and> s_TimeInterval s = 0)"

definition historicalWindow :: "('b, 'a, 'v) DynamicSchema \<Rightarrow> bool" where
  "historicalWindow s =
     ((s_StartBlock s \<noteq> 0 \<and> s_EndBlock s \<noteq> 0) \<or> (s_StartTime s \<noteq> 0 \<and> s_EndTime s \<noteq> 0))"

text \<open>
  The Validate rules in the words of the specification: a query has a Method or an Event
  wherever it is declared, and an interval set on the schema or on a query counts.
\<close>

definition queryHasMethod :: "('b, 'a) QuerySchema \<Rightarrow> bool" where
  "queryHasMethod q =
     (list_ex (\<lambda>c. c_Methods c \<noteq> [] \<or> list_ex (\<lambda>e. e_Methods e \<noteq> []) (c_Events c))
        (q_ContractSchemas q)
      \<or> list_ex (\<lambda>e. e_Methods e \<noteq> []) (q_EventSchemas q))"

definition queryHasEvent :: "('b, 'a) QuerySchema \<Rightarrow> bool" where
  "queryHasEvent q =
     (list_ex (\<lambda>c. c_Events c \<noteq> []) (q_ContractSchemas q) \<or> q_EventSchemas q \<noteq> [])"

definition noIntervalAnywhere :: "('b, 'a, 'v) DynamicSchema \<Rightarrow> bool" where
  "noIntervalAnywhere s =
     (s_TimeInterval s = 0 \<and> s_BlockInterval s = 0
      \<and> list_all (\<lambda>q. q_BlockInterval q = 0) (s_QuerySchemas s))"

definition Validate_claimed :: "('b, 'a, 'v) DynamicSchema \<Rightarrow> ApolloOpts \<Rightarrow> error option" where
  "Validate_claimed s opts =
     (if list_ex queryHasMethod (s_QuerySchemas s) \<and> Realtime opts \<and> noIntervalAnywhere s
      then Some ErrNoIntervalRealtime
      else if list_ex queryHasMethod (s_QuerySchemas s)
              \<and> ((s_StartBlock s \<noteq> 0 \<and> s_EndBlock s \<noteq> 0) \<or> (s_StartTime s \<noteq> 0 \<and> s_EndTime s \<noteq> 0))
              \<and> noIntervalAnywhere s
      then Some ErrNoIntervalHistorical
      else if list_ex queryHasEvent (s_QuerySchemas s) \<and> \<not> Realtime opts \<and> \<not> noIntervalAnywhere s
      then Some ErrIntervalDefinedForHistoricalEvents
      else None)"

subsection \<open>Runtime evaluation\<close>

text \<open>A name is shadowed when the result has an input or an output of that name.\<close>

definition shadowed :: "'o CallResult \<Rightarrow> string \<Rightarrow> bool" where
  "shadowed cr k = (cr_Inputs cr k \<noteq> None \<or> cr_Outputs cr k \<noteq> None)"

text \<open>The nodes \<open>EvalTransforms\<close> walks for a result kind.\<close>

definition transformNodes ::
  "('b, 'v, 'f, 'o, 'p) extern \<Rightarrow> ('b, 'a) QuerySchema \<Rightarrow> ResultType
     \<Rightarrow> (string \<times> 'b Transform option) list" where
  "transformNodes E q tp = (if tp = GlobalEvent then eventNodes q else contractNodes E q)"

text \<open>The Filter of one query: pass, or the first error.\<close>

definition filterQuery ::
  "('b, 'v, 'f, 'o, 'p) extern \<Rightarrow> ('v, 'f) heap \<Rightarrow> ('b, 'a) QuerySchema \<Rightarrow> error + bool" where
  "filterQuery E h q =
     (case q_Filters q of
        None \<Rightarrow> Inr True
      | Some fb \<Rightarrow>
          (case HcldecDecode E fb (readCtx h (q_EvalContext q)) of
             Inl d \<Rightarrow> Inl (LibErr d)
           | Inr v \<Rightarrow>
               (case FromCtyValue E v of
                  Inl d \<Rightarrow> Inl (LibErr d)
                | Inr bs \<Rightarrow> Inr (False \<notin> set bs))))"

text \<open>The context objects of the queries that a result names.\<close>

definition targets :: "('b, 'a, 'v) DynamicSchema \<Rightarrow> 'o CallResult \<Rightarrow> ref set" where
  "targets s res =
     {c. \<exists>q\<in>set (s_QuerySchemas s). q_Name q = cr_QueryName res \<and> q_EvalContext q = Some c}"

text \<open>
  How the store may change when only the contexts in \<open>T\<close> are written: no function
  table pointer changes; a variable table pointer changes only from nil to a new map, in
  a context of \<open>T\<close>; no key leaves a map; a map that no context of \<open>T\<close> points to
  keeps its contents.
\<close>

definition evolves :: "ref set \<Rightarrow> ('v, 'f) heap \<Rightarrow> ('v, 'f) heap \<Rightarrow> bool" where
  "evolves T h h' =
     (next_ref h \<le> next_ref h'
      \<and> (\<forall>c. Functions (ctxs h' c) = Functions (ctxs h c))
      \<and> (\<forall>c. Variables (ctxs h' c) = Variables (ctxs h c)
             \<or> (c \<in> T \<and> Variables (ctxs h c) = None
                 \<and> (\<exists>r. Variables (ctxs h' c) = Some r \<and> next_ref h \<le> r \<and> r < next_ref h')))
      \<and> (\<forall>r. r < next_ref h \<longrightarrow>
             dom (vmaps h r) \<subseteq> dom (vmaps h' r)
             \<and> ((\<forall>c\<in>T. Variables (ctxs h c) \<noteq> Some r) \<longrightarrow> vmaps h' r = vmaps h r))
      \<and> (\<forall>r. dom (fmaps h r) \<subseteq> dom (fmaps h' r)
             \<and> ((\<forall>c\<in>T. Functions (ctxs h c) \<noteq> Some r) \<longrightarrow> fmaps h' r = fmaps h r)))"

text \<open>Two stores that hold the same context objects and maps for the contexts in \<open>T\<close>,
  and allocate from the same reference on.\<close>

definition agree :: "ref set \<Rightarrow> ('v, 'f) heap \<Rightarrow> ('v, 'f) heap \<Rightarrow> bool" where
  "agree T h k =
     (next_ref h = next_ref k
      \<and> (\<forall>c\<in>T. ctxs h c = ctxs k c
            \<and> (\<forall>r. Variables (ctxs h c) = Some r \<longrightarrow> vmaps h r = vmaps k r)
            \<and> (\<forall>r. Functions (ctxs h c) = Some r \<longrightarrow> fmaps h r = fmaps k r)))"

text \<open>The variable map of a context, if it has one, is an allocated object.\<close>

definition varref_ok :: "('v, 'f) heap \<Rightarrow> ref \<Rightarrow> bool" where
  "varref_ok h c = (case Variables (ctxs h c) of None \<Rightarrow> True | Some r \<Rightarrow> r < next_ref h)"

text \<open>
  The names a call of \<open>EvalSave\<close> may write: into a variable table the names derived
  from the result and the names any Transform of a query named by the result can decode
  to; into a function table the names of the chain functions.  \<open>keeps KV KF\<close>: outside
  these names every allocated variable map and every function map keeps its entries.
\<close>

definition nodeKeys ::
  "('b, 'v, 'f, 'o, 'p) extern \<Rightarrow> (string \<times> 'b Transform option) list \<Rightarrow> string set" where
  "nodeKeys E nodes =
     {k. \<exists>name t view mv. (name, Some t) \<in> set nodes
           \<and> DecodeBody E (t_Options t) view = Inr mv \<and> k \<in> dom mv}"

definition resultKeys ::
  "('b, 'v, 'f, 'o, 'p) extern \<Rightarrow> ('b, 'a, 'v) DynamicSchema \<Rightarrow> 'o CallResult \<Rightarrow> string set" where
  "resultKeys E s res =
     dom (GenerateContextVars E res)
     \<union> {k. \<exists>q\<in>set (s_QuerySchemas s). q_Name q = cr_QueryName res
              \<and> k \<in> nodeKeys E (transformNodes E q (cr_Type res))}"

definition resultFuns ::
  "('b, 'v, 'f, 'o, 'p) extern \<Rightarrow> 'p \<Rightarrow> 'o CallResult \<Rightarrow> string set" where
  "resultFuns E provider res =
     dom (BuildChainFunctions E provider (cr_Chain res) (sint (cr_BlockNumber res)))"

definition keeps :: "string set \<Rightarrow> string set \<Rightarrow> ('v, 'f) heap \<Rightarrow> ('v, 'f) heap \<Rightarrow> bool" where
  "keeps KV KF h h' =
     (next_ref h \<le> next_ref h'
      \<and> (\<forall>r k. r < next_ref h \<longrightarrow> k \<notin> KV \<longrightarrow> vmaps h' r k = vmaps h r k)
      \<and> (\<forall>r k. k \<notin> KF \<longrightarrow> fmaps h' r k = fmaps h r k))"

text \<open>A sequence of calls of \<open>EvalSave\<close> on one schema; a panic ends it.\<close>

fun EvalSaves ::
  "('b, 'v, 'f, 'o, 'p) extern \<Rightarrow> ('b, 'a, 'v) DynamicSchema \<Rightarrow> 'p \<Rightarrow> 'o CallResult list
     \<Rightarrow> ('v, 'f) heap \<Rightarrow> ('v, 'f) heap" where
  "EvalSaves E s provider [] h = h"
| "EvalSaves E s provider (res # results) h =
     (case EvalSave E s provider res h of
        (Inl Panic, h') \<Rightarrow> h'
      | (r, h') \<Rightarrow> EvalSaves E s provider results h')"

subsection \<open>Loading\<close>

text \<open>The builtin function table, and what a decoder sees of the context of a loop
  iteration and of the schema context with the variables \<open>vars\<close> merged.\<close>

definition builtins :: "('b, 'a, 'v, 'f) loader \<Rightarrow> ('v, 'f) heap \<Rightarrow> (string \<rightharpoonup> 'f)" where
  "builtins L h = (case dsl_Functions L of None \<Rightarrow> Map.empty | Some r \<Rightarrow> fmaps h r)"

definition loopView ::
  "('b, 'a, 'v, 'f) loader \<Rightarrow> ('v, 'f) heap \<Rightarrow> 'v \<Rightarrow> ('v, 'f) ctxview" where
  "loopView L h item = Some ([''item'' \<mapsto> item], builtins L h)"

definition schemaView ::
  "('b, 'a, 'v, 'f) loader \<Rightarrow> (string \<rightharpoonup> 'v) \<Rightarrow> ('v, 'f) heap \<Rightarrow> ('v, 'f) ctxview" where
  "schemaView L vars h = Some ([''now'' \<mapsto> Now L] ++ vars, builtins L h)"

text \<open>The store after the allocations of one loop iteration, and after the schema context
  is built and the variables are merged.\<close>

definition loopAlloc :: "('b, 'a, 'v, 'f) loader \<Rightarrow> 'v \<Rightarrow> ('v, 'f) heap \<Rightarrow> ('v, 'f) heap" where
  "loopAlloc L item h =
     (case InitialContext L h of
        (c0, h1) \<Rightarrow>
          (case newMap [''item'' \<mapsto> item] h1 of
             (r, h2) \<Rightarrow> snd (newContext (c0\<lparr>Variables := Some r\<rparr>) h2)))"

definition schemaHeap ::
  "('b, 'a, 'v, 'f) loader \<Rightarrow> (string \<rightharpoonup> 'v) \<Rightarrow> ('v, 'f) heap \<Rightarrow> ('v, 'f) heap" where
  "schemaHeap L vars h =
     (case InitialContext L h of
        (c0, h1) \<Rightarrow>
          (case newContext c0 h1 of
             (schemaContext, h2) \<Rightarrow> snd (assignVars (Some schemaContext) vars h2)))"

text \<open>Later stores keep the function maps and everything allocated before.\<close>

definition above :: "('v, 'f) heap \<Rightarrow> ('v, 'f) heap \<Rightarrow> bool" where
  "above h h' =
     (next_ref h \<le> next_ref h' \<and> fmaps h' = fmaps h
      \<and> (\<forall>r. r < next_ref h \<longrightarrow> ctxs h' r = ctxs h r \<and> vmaps h' r = vmaps h r))"

section \<open>Example inputs\<close>

text \<open>Validate: one query with a query-level block interval, one contract with one method.\<close>

definition c2_schema :: "(body, unit, cty) DynamicSchema" where
  "c2_schema =
     mkSchema
       [(mkQuery ''q'' [mkContract ''0x0a'' [mkMethod ''balanceOf''] [] None] [] [] None None)
          \<lparr>q_BlockInterval := 12\<rparr>]
       None"

text \<open>Validate: one contract with a method and an event, and a schema-level block interval.\<close>

definition c2_both :: "(body, unit, cty) DynamicSchema" where
  "c2_both =
     (mkSchema
        [mkQuery ''q'' [mkContract ''0x0a'' [mkMethod ''balanceOf''] [mkEvent ''Transfer'' None] None]
           [] [] None None]
        None)
       \<lparr>s_BlockInterval := 5\<rparr>"

text \<open>Validate: the first contract has a method, the last one has none.\<close>

definition c2_last_without :: "(body, unit, cty) DynamicSchema" where
  "c2_last_without =
     mkSchema
       [mkQuery ''q''
          [mkContract ''0x0a'' [mkMethod ''balanceOf''] [] None, mkContract ''0x0b'' [] [] None]
          [] [] None None]
       None"

text \<open>EvalTransforms: the first contract has no Transform, the second one, whose address
  is the identifier of the result, has one.\<close>

definition c1_query :: "(body, unit) QuerySchema" where
  "c1_query =
     mkQuery ''q''
       [mkContract ''0x0a'' [] [] None,
        mkContract ''0x0b'' [] [] (Some (Transform [(''doubled'', Lit (NumberIntVal 84))]))]
       [] [] None (Some 1)"

text \<open>A query whose Save reads the block number and whose Filter is \<open>[true, false]\<close>.\<close>

definition c5_query :: "(body, unit) QuerySchema" where
  "c5_query =
     mkQuery ''q'' [] [] [(''block'', Var ''blocknumber'')]
       (Some [(''filter'', Lit (ListVal [BoolVal True, BoolVal False]))]) (Some 1)"

definition c5_schema :: "(body, unit, cty) DynamicSchema" where
  "c5_schema = mkSchema [c5_query] (Some 1)"

definition c5_result :: "int CallResult" where
  "c5_result = mkResult Method ''q'' ''0x000000000000000000000000000000000000000A''"

text \<open>Two queries of one name whose Filters differ: \<open>[false]\<close> in the first,
  \<open>[true]\<close> in the second.\<close>

definition c5_dup :: "(body, unit, cty) DynamicSchema" where
  "c5_dup =
     mkSchema
       [mkQuery ''q'' [] [] [(''block'', Var ''blocknumber'')]
          (Some [(''filter'', Lit (ListVal [BoolVal False]))]) (Some 1),
        mkQuery ''q'' [] [] [(''block'', Var ''blocknumber'')]
          (Some [(''filter'', Lit (ListVal [BoolVal True]))]) (Some 1)]
       (Some 1)"

text \<open>Two queries of one name with the Filter \<open>[true, false]\<close> and different Saves.\<close>

definition c5_same :: "(body, unit, cty) DynamicSchema" where
  "c5_same =
     mkSchema [c5_query, c5_query\<lparr>q_Saves := Save [(''time'', Var ''timestamp'')]\<rparr>] (Some 1)"

text \<open>A method result with an input named like a variable of event results, and the
  method result of the specification's example.\<close>

definition c6_shadowing :: "int CallResult" where
  "c6_shadowing =
     (mkResult Method ''q'' ''0x000000000000000000000000000000000000000A'')
       \<lparr>cr_Inputs := [''tx_hash'' \<mapsto> GoString ''0xabc'']\<rparr>"

definition c6_method :: "int CallResult" where
  "c6_method =
     (mkResult Method ''q'' ''0x000000000000000000000000000000000000000A'')
       \<lparr>cr_Inputs := [''amount'' \<mapsto> GoOther 42], cr_Outputs := [''owner'' \<mapsto> GoAddress 11]\<rparr>"

text \<open>A query with two contracts.  The Transform of the first decodes; in the Transform of
  the second the first attribute decodes and the second one refers to an unknown variable.
  The schema holds another query before it, the result is a method result of the second
  contract, and \<open>c7_heap\<close> is \<open>demoHeap\<close> with the variables and chain functions
  of that result written to the context.\<close>

definition c7_query :: "(body, unit) QuerySchema" where
  "c7_query =
     mkQuery ''q''
       [mkContract ''0x0a'' [] [] (Some (Transform [(''x'', Lit (NumberIntVal 5))])),
        mkContract ''0x0b'' [] []
          (Some (Transform [(''a'', Lit (NumberIntVal 1)), (''b'', Var ''missing'')]))]
       [] [] None (Some 1)"

definition c7_schema :: "(body, unit, cty) DynamicSchema" where
  "c7_schema = mkSchema [mkQuery ''p'' [] [] [] None (Some 1), c7_query] (Some 1)"

definition c7_result :: "int CallResult" where
  "c7_result = mkResult Method ''q'' ''0x000000000000000000000000000000000000000b''"

definition c7_heap :: "(cty, chainfn) heap" where
  "c7_heap =
     snd (assignFuns (Some 1) (demoBuildChainFunctions () ''ethereum'' 100)
       (snd (assignVars (Some 1) (GenerateContextVars demoExtern c7_result) demoHeap)))"

text \<open>Two queries on the one context object of a loaded schema, and two queries on
  separate context objects with separate maps.\<close>

definition c8_shared :: "(body, unit, cty) DynamicSchema" where
  "c8_shared =
     mkSchema [mkQuery ''q1'' [] [] [] None (Some 1), mkQuery ''q2'' [] [] [] None (Some 1)] (Some 1)"

definition c8_separate :: "(body, unit, cty) DynamicSchema" where
  "c8_separate =
     mkSchema [mkQuery ''q1'' [] [] [] None (Some 1), mkQuery ''q2'' [] [] [] None (Some 3)] (Some 1)"

definition c8_heap :: "(cty, chainfn) heap" where
  "c8_heap =
     \<lparr>ctxs = (\<lambda>r. if r = 1 then \<lparr>Variables = Some 0, Functions = Some 0\<rparr>
                   else if r = 3 then \<lparr>Variables = Some 2, Functions = Some 1\<rparr>
                   else \<lparr>Variables = None, Functions = None\<rparr>),
      vmaps = (\<lambda>r. if r = 0 then [''now'' \<mapsto> NumberIntVal 1700000000]
                    else if r = 2 then [''item'' \<mapsto> StringVal ''0x0b'']
                    else Map.empty),
      fmaps = (\<lambda>r. Map.empty),
      next_ref = 4\<rparr>"

definition c8_result :: "int CallResult" where
  "c8_result = mkResult Method ''q1'' ''0x000000000000000000000000000000000000000A''"

definition c9_result :: "int CallResult" where
  "c9_result = mkResult Method ''unknown'' ''0x000000000000000000000000000000000000000A''"

text \<open>A query without Filter, a method result with an input and a later event result.\<close>

definition c10_schema :: "(body, unit, cty) DynamicSchema" where
  "c10_schema = mkSchema [mkQuery ''q'' [] [] [(''block'', Var ''blocknumber'')] None (Some 1)] (Some 1)"

definition c10_first :: "int CallResult" where
  "c10_first =
     (mkResult Method ''q'' ''0x000000000000000000000000000000000000000A'')
       \<lparr>cr_Inputs := [''amount'' \<mapsto> GoOther 42]\<rparr>"

definition c10_later :: "int CallResult" where
  "c10_later = mkResult Event ''q'' ''0x000000000000000000000000000000000000000A''"

text \<open>A configuration with a variable, one direct query and a loop over two addresses
  whose template makes one query per item, named after the item.\<close>

definition demoLoopLevel :: "body \<Rightarrow> (cty, chainfn) ctxview \<Rightarrow> string + (body, unit) QuerySchema list" where
  "demoLoopLevel template ctx =
     (case ctx of
        None \<Rightarrow> Inl ''Variables not allowed''
      | Some (vars, funs) \<Rightarrow>
          (case vars ''item'' of
             Some (StringVal a) \<Rightarrow>
               Inr [mkQuery a [mkContract a [] [] None] [] [(''seen'', Var ''item'')] None None]
           | _ \<Rightarrow> Inl ''Unknown variable''))"

definition demoDecoded :: "(body, unit, cty) DynamicSchema" where
  "demoDecoded = (mkSchema [] None)\<lparr>s_Variables := [''threshold'' \<mapsto> NumberIntVal 5]\<rparr>"

definition demoLoop :: "(body, cty) LoopSchema" where
  "demoLoop = \<lparr>l_Items = [StringVal ''0x0a'', StringVal ''0x0b''], l_QuerySchema = []\<rparr>"

definition demoDirect :: "(body, unit) QuerySchema list" where
  "demoDirect = [mkQuery ''direct'' [] [] [] None None]"

definition demoLoader :: "(body, unit, cty, chainfn) loader" where
  "demoLoader =
     \<lparr>Join = (\<lambda>dir name. dir @ ''/'' @ name),
      ReadFile = (\<lambda>p. if p = ''conf/schema.hcl'' then Inr ''loop {}'' else Inl ''no such file''),
      ParseConfig = (\<lambda>src p. Inr []),
      DecodeSchema = (\<lambda>b ctx. Inr demoDecoded),
      DecodeTopLevel = (\<lambda>b ctx. Inr (Some demoLoop, demoDirect)),
      DecodeLoopLevel = demoLoopLevel,
      Open = (\<lambda>p. Inr ''[]''),
      AbiJSON = (\<lambda>src. Inr ()),
      dsl_Functions = Some 0,
      Now = NumberIntVal 1700000000\<rparr>"

text \<open>The same configuration with a second item that the template cannot use.\<close>

definition demoLoaderBad :: "(body, unit, cty, chainfn) loader" where
  "demoLoaderBad =
     demoLoader
       \<lparr>DecodeTopLevel :=
          (\<lambda>b ctx. Inr (Some (demoLoop\<lparr>l_Items := [StringVal ''0x0a'', NumberIntVal 7]\<rparr>), demoDirect))\<rparr>"

definition startHeap :: "(cty, chainfn) heap" where
  "startHeap =
     \<lparr>ctxs = (\<lambda>r. \<lparr>Variables = None, Functions = None\<rparr>),
      vmaps = (\<lambda>r. Map.empty),
      fmaps = (\<lambda>r. if r = 0 then [''upper'' \<mapsto> (''upper'', [], 0)] else Map.empty),
      next_ref = 0\<rparr>"

section \<open>Properties\<close>

subsection \<open>Validate\<close>

lemma scanContracts_last:
  "scanContracts cs flags =
     (if cs = [] then flags else (c_Methods (last cs) \<noteq> [], c_Events (last cs) \<noteq> []))"
  by (induction cs arbitrary: flags) auto

lemma scanQueries_last:
  "scanQueries qs flags =
     (if concat (map q_ContractSchemas qs) = [] then flags
      else (c_Methods (last (concat (map q_ContractSchemas qs))) \<noteq> [],
            c_Events (last (concat (map q_ContractSchemas qs))) \<noteq> []))"
proof (induction qs arbitrary: flags)
  case Nil
  then show ?case by simp
next
  case (Cons q qs)
  show ?case
    by (simp add: Cons.IH scanContracts_last last_append del: concat_eq_Nil_conv)
qed

lemma scanQueries_allContracts:
  "scanQueries (s_QuerySchemas s) flags =
     (if allContracts s = [] then flags
      else (c_Methods (last (allContracts s)) \<noteq> [], c_Events (last (allContracts s)) \<noteq> []))"
  unfolding allContracts_def by (rule scanQueries_last)

lemma last_witness: "cs \<noteq> [] \<Longrightarrow> P (last cs) \<Longrightarrow> list_ex P cs"
  by (auto simp: list_ex_iff intro: bexI [of _ "last cs"])

lemmas demo_defs =
  demoExtern_def demoHexToAddress_def demoAddressString_def demoHashString_def
  demoToCtyValue_def demoBuildChainFunctions_def demoHcldecDecode_def demoFromCtyValue_def
  mkContract_def mkEvent_def mkMethod_def mkQuery_def mkSchema_def mkResult_def demoHeap_def

text \<open>
  Claim C2, as amended.  \<open>Validate\<close> reads the Methods and Events of contracts only
  and the intervals of the schema only.  For a schema in which the last contract visited
  has a Method whenever some contract has one, and an Event whenever some contract has
  one: it returns \<open>ErrNoIntervalRealtime\<close> exactly when some contract has a Method,
  realtime mode is on and neither schema-level interval is set; else
  \<open>ErrNoIntervalHistorical\<close> exactly when some contract has a Method, a complete
  historical window is set and neither interval is set; else
  \<open>ErrIntervalDefinedForHistoricalEvents\<close> exactly when some contract has an Event, the
  mode is not realtime and an interval is set; else nil.
\<close>

theorem Validate_rules:
  assumes "anyMethods s \<longrightarrow> c_Methods (last (allContracts s)) \<noteq> []"
    and "anyEvents s \<longrightarrow> c_Events (last (allContracts s)) \<noteq> []"
  shows "Validate s opts =
     (if anyMethods s \<and> Realtime opts \<and> noInterval s then Some ErrNoIntervalRealtime
      else if anyMethods s \<and> historicalWindow s \<and> noInterval s then Some ErrNoIntervalHistorical
      else if anyEvents s \<and> \<not> Realtime opts \<and> \<not> noInterval s
        then Some ErrIntervalDefinedForHistoricalEvents
      else None)"
proof -
  have flags: "scanQueries (s_QuerySchemas s) (False, False) = (anyMethods s, anyEvents s)"
  proof (cases "allContracts s = []")
    case True
    then show ?thesis
      by (simp add: scanQueries_allContracts anyMethods_def anyEvents_def)
  next
    case False
    have "(c_Methods (last (allContracts s)) \<noteq> []) = anyMethods s"
      using assms(1) last_witness [OF False, of "\<lambda>c. c_Methods c \<noteq> []"]
      unfolding anyMethods_def by blast
    moreover have "(c_Events (last (allContracts s)) \<noteq> []) = anyEvents s"
      using assms(2) last_witness [OF False, of "\<lambda>c. c_Events c \<noteq> []"]
      unfolding anyEvents_def by blast
    ultimately show ?thesis
      using False by (simp add: scanQueries_allContracts)
  qed
  show ?thesis
    unfolding Validate_def flags
    by (simp add: validateEvents_def noInterval_def historicalWindow_def)
qed

text \<open>
  The rules at a schema with one contract holding a method and an event: each of the
  three errors, and nil.
\<close>

theorem Validate_rules_witness:
  "anyMethods c2_both \<and> c_Methods (last (allContracts c2_both)) \<noteq> []
   \<and> anyEvents c2_both \<and> c_Events (last (allContracts c2_both)) \<noteq> []
   \<and> Validate c2_both \<lparr>Realtime = False\<rparr> = Some ErrIntervalDefinedForHistoricalEvents
   \<and> Validate c2_both \<lparr>Realtime = True\<rparr> = None
   \<and> Validate (c2_both\<lparr>s_BlockInterval := 0\<rparr>) \<lparr>Realtime = True\<rparr> = Some ErrNoIntervalRealtime
   \<and> Validate (c2_both\<lparr>s_BlockInterval := 0, s_StartBlock := 1, s_EndBlock := 9\<rparr>) \<lparr>Realtime = False\<rparr>
       = Some ErrNoIntervalHistorical"
proof -
  define s1 where "s1 = c2_both\<lparr>s_BlockInterval := 0\<rparr>"
  define s2 where "s2 = c2_both\<lparr>s_BlockInterval := 0, s_StartBlock := 1, s_EndBlock := 9\<rparr>"
  have c: "allContracts s1 = allContracts c2_both" "allContracts s2 = allContracts c2_both"
    by (simp_all add: s1_def s2_def allContracts_def)
  have m: "anyMethods c2_both" "anyEvents c2_both"
      "c_Methods (last (allContracts c2_both)) \<noteq> []" "c_Events (last (allContracts c2_both)) \<noteq> []"
    by (simp_all add: c2_both_def allContracts_def anyMethods_def anyEvents_def demo_defs)
  have m': "anyMethods s1" "anyEvents s1" "anyMethods s2" "anyEvents s2"
    using m by (simp_all add: anyMethods_def anyEvents_def c)
  have i: "\<not> noInterval c2_both" "noInterval s1" "noInterval s2" "historicalWindow s2"
    by (simp_all add: s1_def s2_def c2_both_def noInterval_def historicalWindow_def demo_defs)
  have a: "anyMethods c2_both \<longrightarrow> c_Methods (last (allContracts c2_both)) \<noteq> []"
    and b: "anyEvents c2_both \<longrightarrow> c_Events (last (allContracts c2_both)) \<noteq> []"
    and a1: "anyMethods s1 \<longrightarrow> c_Methods (last (allContracts s1)) \<noteq> []"
    and b1: "anyEvents s1 \<longrightarrow> c_Events (last (allContracts s1)) \<noteq> []"
    and a2: "anyMethods s2 \<longrightarrow> c_Methods (last (allContracts s2)) \<noteq> []"
    and b2: "anyEvents s2 \<longrightarrow> c_Events (last (allContracts s2)) \<noteq> []"
    using m by (simp_all add: c)
  have v1: "Validate c2_both \<lparr>Realtime = False\<rparr> = Some ErrIntervalDefinedForHistoricalEvents"
    using Validate_rules [OF a b, of "\<lparr>Realtime = False\<rparr>"] m i by simp
  have v2: "Validate c2_both \<lparr>Realtime = True\<rparr> = None"
    using Validate_rules [OF a b, of "\<lparr>Realtime = True\<rparr>"] m i by simp
  have v3: "Validate s1 \<lparr>Realtime = True\<rparr> = Some ErrNoIntervalRealtime"
    using Validate_rules [OF a1 b1, of "\<lparr>Realtime = True\<rparr>"] m' i by simp
  have v4: "Validate s2 \<lparr>Realtime = False\<rparr> = Some ErrNoIntervalHistorical"
    using Validate_rules [OF a2 b2, of "\<lparr>Realtime = False\<rparr>"] m' i by simp
  show ?thesis
    using m v1 v2 v3 v4 unfolding s1_def s2_def by simp
qed

text \<open>
  Claim C2 as stated fails: an interval set on the query only does not count.  In realtime
  mode, with a method and a query-level block interval of 12, \<open>Validate\<close> returns
  \<open>ErrNoIntervalRealtime\<close>, where the rules as claimed return nil.
\<close>

theorem Validate_ignores_query_interval:
  "Validate c2_schema \<lparr>Realtime = True\<rparr> = Some ErrNoIntervalRealtime
   \<and> Validate_claimed c2_schema \<lparr>Realtime = True\<rparr> = None"
  by (simp add: c2_schema_def Validate_def validateEvents_def Validate_claimed_def
      noIntervalAnywhere_def queryHasMethod_def queryHasEvent_def demo_defs)

text \<open>
  The flags are overwritten at every contract, unlike \<open>HasContractMethods\<close> and
  \<open>HasContractEvents\<close>: a method of an earlier contract is forgotten when the last
  contract has none.
\<close>

lemma Validate_last_contract_only:
  "Validate c2_last_without \<lparr>Realtime = True\<rparr> = None \<and> anyMethods c2_last_without"
  by (simp add: c2_last_without_def Validate_def validateEvents_def anyMethods_def
      allContracts_def demo_defs)

subsection \<open>GenerateContextVars\<close>

lemma GCV_apply:
  "GenerateContextVars E cr k =
     (case cr_Outputs cr k of
        Some v \<Rightarrow> Some (outputVar E v)
      | None \<Rightarrow>
          (case cr_Inputs cr k of
             Some v \<Rightarrow> Some (inputVar E v)
           | None \<Rightarrow> (case eventVars E cr k of Some v \<Rightarrow> Some v | None \<Rightarrow> baseVars E cr k)))"
  by (simp add: GenerateContextVars_def map_add_def split: option.splits)

lemma GenerateContextVars_nonempty: "GenerateContextVars E res \<noteq> Map.empty"
proof
  assume "GenerateContextVars E res = Map.empty"
  then have "dom (GenerateContextVars E res) = {}" by simp
  moreover have "''contract_address'' \<in> dom (GenerateContextVars E res)"
    by (auto simp: GenerateContextVars_def baseVars_def)
  ultimately show False by blast
qed

lemmas heap_defs =
  readCtx_def ctxVars_def ctxFuns_def assignVars_def assignFuns_def ensureVariables_def
  newMap_def newContext_def

lemmas eval_defs =
  EvalSave_def EvalFilter_def saveQuery_def EvalTransforms_def contractNodes_def eventNodes_def
  OutputName_def Address_def baseVars_def eventVars_def inputVar_def outputVar_def
  GCV_apply GenerateContextVars_nonempty map_add_def

text \<open>
  Claim C6, as amended.  Outputs override inputs, and both override the variables
  derived from the result's own fields.  For a name that no input or output carries:
  \<open>contract_address\<close>, \<open>block_hash\<close> and \<open>chain\<close> are converted as strings,
  \<open>blocknumber\<close> and \<open>timestamp\<close> as numbers; \<open>tx_hash\<close>, \<open>event_name\<close> (strings)
  and \<open>tx_index\<close> (number) exist if and only if the result is not of kind Method.
  Every output is one variable: a string for a string, the string form of an address for
  an address, the conversion to a number for every other value.  Every input that is not
  also an output is one variable: a string for a string, the conversion to a number for
  every other value.  There are no other variables.
\<close>

theorem GenerateContextVars_vars:
  fixes E :: "('b, 'v, 'f, 'o, 'p) extern" and cr :: "'o CallResult"
  defines "m \<equiv> GenerateContextVars E cr"
  shows "(\<not> shadowed cr ''contract_address'' \<longrightarrow>
            m ''contract_address'' =
              Some (ToCtyValue E (GoString (AddressString E (cr_ContractAddress cr))) CtyString))
       \<and> (\<not> shadowed cr ''blocknumber'' \<longrightarrow>
            m ''blocknumber'' = Some (ToCtyValue E (GoUint (cr_BlockNumber cr)) CtyNumber))
       \<and> (\<not> shadowed cr ''timestamp'' \<longrightarrow>
            m ''timestamp'' = Some (ToCtyValue E (GoUint (cr_Timestamp cr)) CtyNumber))
       \<and> (\<not> shadowed cr ''block_hash'' \<longrightarrow>
            m ''block_hash'' = Some (ToCtyValue E (GoString (HashString E (cr_BlockHash cr))) CtyString))
       \<and> (\<not> shadowed cr ''chain'' \<longrightarrow>
            m ''chain'' = Some (ToCtyValue E (GoChain (cr_Chain cr)) CtyString))
       \<and> (\<not> shadowed cr ''tx_hash'' \<longrightarrow>
            m ''tx_hash'' =
              (if cr_Type cr \<noteq> Method
               then Some (ToCtyValue E (GoString (HashString E (cr_TxHash cr))) CtyString) else None))
       \<and> (\<not> shadowed cr ''event_name'' \<longrightarrow>
            m ''event_name'' =
              (if cr_Type cr \<noteq> Method
               then Some (ToCtyValue E (GoString (cr_EventName cr)) CtyString) else None))
       \<and> (\<not> shadowed cr ''tx_index'' \<longrightarrow>
            m ''tx_index'' =
              (if cr_Type cr \<noteq> Method
               then Some (ToCtyValue E (GoUint (cr_TxIndex cr)) CtyNumber) else None))
       \<and> (\<forall>k v. cr_Outputs cr k = Some v \<longrightarrow>
            m k = Some (case v of
                          GoAddress a \<Rightarrow> ToCtyValue E (GoString (AddressString E a)) CtyString
                        | GoString s \<Rightarrow> ToCtyValue E v CtyString
                        | _ \<Rightarrow> ToCtyValue E v CtyNumber))
       \<and> (\<forall>k v. cr_Inputs cr k = Some v \<and> cr_Outputs cr k = None \<longrightarrow>
            m k = Some (case v of
                          GoString s \<Rightarrow> ToCtyValue E v CtyString
                        | _ \<Rightarrow> ToCtyValue E v CtyNumber))
       \<and> dom m = {''contract_address'', ''blocknumber'', ''timestamp'', ''block_hash'', ''chain''}
                   \<union> (if cr_Type cr \<noteq> Method then {''tx_hash'', ''event_name'', ''tx_index''} else {})
                   \<union> dom (cr_Inputs cr) \<union> dom (cr_Outputs cr)"
proof -
  have base: "\<not> shadowed cr k \<Longrightarrow> m k = (case eventVars E cr k of Some v \<Rightarrow> Some v | None \<Rightarrow> baseVars E cr k)" for k
    by (auto simp: m_def GCV_apply shadowed_def split: option.splits)
  have out: "cr_Outputs cr k = Some v \<Longrightarrow> m k = Some (outputVar E v)" for k v
    by (simp add: m_def GCV_apply)
  have inp: "cr_Inputs cr k = Some v \<Longrightarrow> cr_Outputs cr k = None \<Longrightarrow> m k = Some (inputVar E v)" for k v
    by (simp add: m_def GCV_apply)
  have d: "dom m = dom (baseVars E cr) \<union> dom (eventVars E cr) \<union> dom (cr_Inputs cr) \<union> dom (cr_Outputs cr)"
    by (auto simp: m_def GenerateContextVars_def dom_def)
  have db: "dom (baseVars E cr) = {''contract_address'', ''blocknumber'', ''timestamp'', ''block_hash'', ''chain''}"
    by (auto simp: baseVars_def)
  have de: "dom (eventVars E cr) = (if cr_Type cr \<noteq> Method then {''tx_hash'', ''event_name'', ''tx_index''} else {})"
    by (auto simp: eventVars_def)
  have b: "\<not> shadowed cr k \<Longrightarrow> eventVars E cr k = None \<Longrightarrow> m k = baseVars E cr k" for k
    by (simp add: base)
  have e: "\<not> shadowed cr k \<Longrightarrow> baseVars E cr k = None \<Longrightarrow> m k = eventVars E cr k" for k
    by (simp add: base split: option.splits)
  show ?thesis
    unfolding d db de
    by (intro conjI impI allI)
       (simp_all add: b e out inp baseVars_def eventVars_def outputVar_def inputVar_def)
qed

text \<open>
  The method result of the specification's example (input \<open>amount = 42\<close>, output
  \<open>owner\<close> an address), and the same result as an event.
\<close>

theorem GenerateContextVars_vars_witness:
  "\<not> shadowed c6_method ''contract_address'' \<and> \<not> shadowed c6_method ''blocknumber''
   \<and> \<not> shadowed c6_method ''timestamp'' \<and> \<not> shadowed c6_method ''block_hash''
   \<and> \<not> shadowed c6_method ''chain'' \<and> \<not> shadowed c6_method ''tx_hash''
   \<and> \<not> shadowed c6_method ''event_name'' \<and> \<not> shadowed c6_method ''tx_index''
   \<and> GenerateContextVars demoExtern c6_method ''contract_address''
       = Some (StringVal ''0x000000000000000000000000000000000000000A'')
   \<and> GenerateContextVars demoExtern c6_method ''blocknumber'' = Some (NumberIntVal 100)
   \<and> GenerateContextVars demoExtern c6_method ''timestamp'' = Some (NumberIntVal 1700000000)
   \<and> GenerateContextVars demoExtern c6_method ''block_hash'' = Some (StringVal ''0x01'')
   \<and> GenerateContextVars demoExtern c6_method ''chain'' = Some (StringVal ''ethereum'')
   \<and> GenerateContextVars demoExtern c6_method ''tx_hash'' = None
   \<and> GenerateContextVars demoExtern c6_method ''event_name'' = None
   \<and> GenerateContextVars demoExtern c6_method ''tx_index'' = None
   \<and> GenerateContextVars demoExtern (c6_method\<lparr>cr_Type := Event\<rparr>) ''tx_hash''
       = Some (StringVal ''0x01'')
   \<and> GenerateContextVars demoExtern (c6_method\<lparr>cr_Type := Event\<rparr>) ''event_name''
       = Some (StringVal ''Transfer'')
   \<and> GenerateContextVars demoExtern (c6_method\<lparr>cr_Type := Event\<rparr>) ''tx_index''
       = Some (NumberIntVal 3)
   \<and> GenerateContextVars demoExtern c6_method ''amount'' = Some (NumberIntVal 42)
   \<and> GenerateContextVars demoExtern c6_method ''owner''
       = Some (StringVal ''0x000000000000000000000000000000000000000b'')
   \<and> dom (GenerateContextVars demoExtern c6_method)
       = {''contract_address'', ''blocknumber'', ''timestamp'', ''block_hash'', ''chain'',
          ''amount'', ''owner''}"
proof -
  define ev where "ev = c6_method\<lparr>cr_Type := Event\<rparr>"
  have s: "\<not> shadowed c6_method ''contract_address''" "\<not> shadowed c6_method ''blocknumber''"
    "\<not> shadowed c6_method ''timestamp''" "\<not> shadowed c6_method ''block_hash''"
    "\<not> shadowed c6_method ''chain''" "\<not> shadowed c6_method ''tx_hash''"
    "\<not> shadowed c6_method ''event_name''" "\<not> shadowed c6_method ''tx_index''"
    "\<not> shadowed ev ''tx_hash''" "\<not> shadowed ev ''event_name''" "\<not> shadowed ev ''tx_index''"
    by (simp_all add: shadowed_def c6_method_def ev_def demo_defs)
  have i: "cr_Inputs c6_method ''amount'' = Some (GoOther 42)"
      "cr_Outputs c6_method ''amount'' = None"
      "cr_Outputs c6_method ''owner'' = Some (GoAddress 11)"
      "cr_Type c6_method = Method" "cr_Type ev = Event"
      "dom (cr_Inputs c6_method) = {''amount''}" "dom (cr_Outputs c6_method) = {''owner''}"
    by (simp_all add: c6_method_def ev_def demo_defs)
  have f: "cr_BlockNumber c6_method = 100" "cr_Timestamp c6_method = 1700000000"
      "cr_ContractAddress c6_method = 10" "cr_BlockHash c6_method = 1"
      "cr_Chain c6_method = ''ethereum''" "cr_TxHash ev = 1" "cr_EventName ev = ''Transfer''"
      "cr_TxIndex ev = 3"
    by (simp_all add: c6_method_def ev_def demo_defs)
  show ?thesis
    using GenerateContextVars_vars [of c6_method demoExtern]
      GenerateContextVars_vars [of ev demoExtern] s i
    unfolding ev_def [symmetric]
    by (simp add: f demo_defs insert_commute)
qed

text \<open>
  Claim C6 as stated fails: a method result with an input named \<open>tx_hash\<close> yields a
  variable \<open>tx_hash\<close>, holding the input.
\<close>

theorem GenerateContextVars_shadowed:
  "cr_Type c6_shadowing = Method
   \<and> GenerateContextVars demoExtern c6_shadowing ''tx_hash'' = Some (StringVal ''0xabc'')"
  by (simp add: c6_shadowing_def demo_defs eval_defs)

subsection \<open>How the store evolves\<close>

lemma evolves_refl: "evolves T h h"
  by (simp add: evolves_def)

lemma evolves_trans:
  assumes a: "evolves T h h1" and b: "evolves T h1 h2"
  shows "evolves T h h2"
proof -
  have n: "next_ref h \<le> next_ref h1" "next_ref h1 \<le> next_ref h2"
    using a b by (simp_all add: evolves_def)
  have f1: "Functions (ctxs h1 c) = Functions (ctxs h c)" for c
    using a by (simp add: evolves_def)
  have f2: "Functions (ctxs h2 c) = Functions (ctxs h1 c)" for c
    using b by (simp add: evolves_def)
  have v1: "Variables (ctxs h1 c) = Variables (ctxs h c)
             \<or> (c \<in> T \<and> Variables (ctxs h c) = None
                 \<and> (\<exists>r. Variables (ctxs h1 c) = Some r \<and> next_ref h \<le> r \<and> r < next_ref h1))" for c
    using a unfolding evolves_def by blast
  have v2: "Variables (ctxs h2 c) = Variables (ctxs h1 c)
             \<or> (c \<in> T \<and> Variables (ctxs h1 c) = None
                 \<and> (\<exists>r. Variables (ctxs h2 c) = Some r \<and> next_ref h1 \<le> r \<and> r < next_ref h2))" for c
    using b unfolding evolves_def by blast
  have m1: "r < next_ref h \<Longrightarrow> dom (vmaps h r) \<subseteq> dom (vmaps h1 r)
             \<and> ((\<forall>c\<in>T. Variables (ctxs h c) \<noteq> Some r) \<longrightarrow> vmaps h1 r = vmaps h r)" for r
    using a unfolding evolves_def by blast
  have m2: "r < next_ref h1 \<Longrightarrow> dom (vmaps h1 r) \<subseteq> dom (vmaps h2 r)
             \<and> ((\<forall>c\<in>T. Variables (ctxs h1 c) \<noteq> Some r) \<longrightarrow> vmaps h2 r = vmaps h1 r)" for r
    using b unfolding evolves_def by blast
  have g1: "dom (fmaps h r) \<subseteq> dom (fmaps h1 r)
             \<and> ((\<forall>c\<in>T. Functions (ctxs h c) \<noteq> Some r) \<longrightarrow> fmaps h1 r = fmaps h r)" for r
    using a unfolding evolves_def by blast
  have g2: "dom (fmaps h1 r) \<subseteq> dom (fmaps h2 r)
             \<and> ((\<forall>c\<in>T. Functions (ctxs h1 c) \<noteq> Some r) \<longrightarrow> fmaps h2 r = fmaps h1 r)" for r
    using b unfolding evolves_def by blast
  have V: "Variables (ctxs h2 c) = Variables (ctxs h c)
             \<or> (c \<in> T \<and> Variables (ctxs h c) = None
                 \<and> (\<exists>r. Variables (ctxs h2 c) = Some r \<and> next_ref h \<le> r \<and> r < next_ref h2))" for c
    using v1 [of c] v2 [of c] n by (elim disjE conjE exE) auto
  have keep: "\<forall>c\<in>T. Variables (ctxs h1 c) \<noteq> Some r"
    if "r < next_ref h" "\<forall>c\<in>T. Variables (ctxs h c) \<noteq> Some r" for r
  proof
    fix c assume "c \<in> T"
    then show "Variables (ctxs h1 c) \<noteq> Some r"
      using v1 [of c] that by auto
  qed
  have M: "dom (vmaps h r) \<subseteq> dom (vmaps h2 r)
             \<and> ((\<forall>c\<in>T. Variables (ctxs h c) \<noteq> Some r) \<longrightarrow> vmaps h2 r = vmaps h r)"
    if "r < next_ref h" for r
  proof -
    have "r < next_ref h1" using that n by simp
    then show ?thesis
      using m1 [OF that] m2 [of r] keep [OF that] by auto
  qed
  have G: "dom (fmaps h r) \<subseteq> dom (fmaps h2 r)
             \<and> ((\<forall>c\<in>T. Functions (ctxs h c) \<noteq> Some r) \<longrightarrow> fmaps h2 r = fmaps h r)" for r
    using g1 [of r] g2 [of r] by (auto simp: f1)
  show ?thesis
    unfolding evolves_def using n V M G by (simp add: f1 f2)
qed

lemma evolves_mono: "evolves T h h' \<Longrightarrow> T \<subseteq> T' \<Longrightarrow> evolves T' h h'"
  unfolding evolves_def by (intro conjI allI impI; blast)

lemma evolves_ensureVariables: "c \<in> T \<Longrightarrow> evolves T h (ensureVariables c h)"
  by (auto simp: evolves_def ensureVariables_def newMap_def)

lemma evolves_assignVars: "ctx = Some c \<Longrightarrow> c \<in> T \<Longrightarrow> evolves T h (snd (assignVars ctx m h))"
  by (auto simp: evolves_def assignVars_def split: option.splits)

lemma evolves_assignVars_nil: "evolves T h (snd (assignVars None m h))"
  by (auto simp: evolves_def assignVars_def split: option.splits)

lemma evolves_assignFuns: "ctx = Some c \<Longrightarrow> c \<in> T \<Longrightarrow> evolves T h (snd (assignFuns ctx m h))"
  by (auto simp: evolves_def assignFuns_def split: option.splits)

lemma evolves_assignVars_in:
  "(\<forall>c. ctx = Some c \<longrightarrow> c \<in> T) \<Longrightarrow> evolves T h (snd (assignVars ctx m h))"
  by (cases ctx) (simp_all add: evolves_assignVars evolves_assignVars_nil)

lemma evolves_transformLoop:
  "(\<forall>c. ctx = Some c \<longrightarrow> c \<in> T) \<Longrightarrow> evolves T h (snd (transformLoop E ctx identifier nodes h))"
proof (induction nodes arbitrary: h)
  case Nil
  then show ?case by (simp add: evolves_refl)
next
  case (Cons n nodes)
  obtain name tr where n: "n = (name, tr)" by (cases n)
  show ?case
  proof (cases tr)
    case None
    then show ?thesis by (simp add: n evolves_refl)
  next
    case (Some t)
    show ?thesis
    proof (cases "name = identifier")
      case False
      then show ?thesis using Cons by (simp add: n Some)
    next
      case True
      show ?thesis
      proof (cases "DecodeBody E (t_Options t) (readCtx h ctx)")
        case (Inl d)
        then show ?thesis by (simp add: n Some True evolves_refl)
      next
        case (Inr mv)
        obtain e h1 where a: "assignVars ctx mv h = (e, h1)" by (cases "assignVars ctx mv h")
        have e1: "evolves T h h1"
          using evolves_assignVars_in [OF Cons.prems, of h mv] by (simp add: a)
        show ?thesis
        proof (cases e)
          case None
          have "evolves T h1 (snd (transformLoop E ctx identifier nodes h1))"
            using Cons by simp
          then show ?thesis
            using e1 by (simp add: n Some True Inr a None evolves_trans [OF e1])
        next
          case (Some err)
          then show ?thesis
            using e1 by (simp add: n \<open>tr = Some t\<close> True Inr a)
        qed
      qed
    qed
  qed
qed

lemma evolves_EvalTransforms:
  "(\<forall>c. q_EvalContext q = Some c \<longrightarrow> c \<in> T)
     \<Longrightarrow> evolves T h (snd (EvalTransforms E q tp identifier h))"
  by (simp add: EvalTransforms_def evolves_transformLoop)

lemma evolves_saveQuery:
  assumes "\<forall>c. q_EvalContext q = Some c \<longrightarrow> c \<in> T"
  shows "evolves T h (snd (saveQuery E provider res q h))"
proof (cases "q_EvalContext q")
  case None
  then show ?thesis by (simp add: saveQuery_def evolves_refl)
next
  case (Some c)
  then have c: "c \<in> T" using assms by simp
  define h0 where "h0 = ensureVariables c h"
  obtain e1 h1 where a1: "assignVars (Some c) (GenerateContextVars E res) h0 = (e1, h1)"
    by (cases "assignVars (Some c) (GenerateContextVars E res) h0")
  obtain e2 h2 where a2: "assignFuns (Some c)
      (BuildChainFunctions E provider (cr_Chain res) (sint (cr_BlockNumber res))) h1 = (e2, h2)"
    by (cases "assignFuns (Some c)
      (BuildChainFunctions E provider (cr_Chain res) (sint (cr_BlockNumber res))) h1")
  obtain e3 h3 where a3: "EvalTransforms E q (cr_Type res) (cr_Identifier res) h2 = (e3, h3)"
    by (cases "EvalTransforms E q (cr_Type res) (cr_Identifier res) h2")
  have s0: "evolves T h h0"
    unfolding h0_def by (rule evolves_ensureVariables [OF c])
  have "evolves T h0 h1"
    using evolves_assignVars [OF refl c, of h0 "GenerateContextVars E res"] by (simp add: a1)
  then have s1: "evolves T h h1"
    by (rule evolves_trans [OF s0])
  have "evolves T h1 h2"
    using evolves_assignFuns [OF refl c, of h1
        "BuildChainFunctions E provider (cr_Chain res) (sint (cr_BlockNumber res))"]
    by (simp add: a2)
  then have s2: "evolves T h h2"
    by (rule evolves_trans [OF s1])
  have "evolves T h2 h3"
    using evolves_EvalTransforms [OF assms, of h2 E "cr_Type res" "cr_Identifier res"]
    by (simp add: a3)
  then have s3: "evolves T h h3"
    by (rule evolves_trans [OF s2])
  show ?thesis
    using s1 s2 s3
    by (simp add: saveQuery_def Some h0_def [symmetric] a1 a2 a3 split: option.splits sum.splits)
qed

lemma evolves_saveLoop:
  assumes "\<forall>q\<in>set qs. q_Name q = cr_QueryName res \<longrightarrow> (\<forall>c. q_EvalContext q = Some c \<longrightarrow> c \<in> T)"
  shows "evolves T h (snd (saveLoop E provider res qs outputs h))"
  using assms
proof (induction qs arbitrary: outputs h)
  case Nil
  then show ?case by (simp add: evolves_refl)
next
  case (Cons q qs)
  show ?case
  proof (cases "q_Name q = cr_QueryName res")
    case False
    then show ?thesis using Cons by simp
  next
    case True
    obtain r h1 where sq: "saveQuery E provider res q h = (r, h1)"
      by (cases "saveQuery E provider res q h")
    have e1: "evolves T h h1"
      using evolves_saveQuery [of q T h E provider res] Cons.prems True by (simp add: sq)
    show ?thesis
    proof (cases r)
      case (Inl e)
      then show ?thesis using e1 by (simp add: True sq)
    next
      case (Inr out)
      have "evolves T h1 (snd (saveLoop E provider res qs out h1))"
        using Cons by simp
      then show ?thesis
        by (simp add: True sq Inr evolves_trans [OF e1])
    qed
  qed
qed

lemma snd_EvalSave:
  "snd (EvalSave E s provider res h) = snd (saveLoop E provider res (s_QuerySchemas s) Map.empty h)"
  by (simp add: EvalSave_def split: prod.splits sum.splits)

lemma evolves_EvalSave: "evolves (targets s res) h (snd (EvalSave E s provider res h))"
  unfolding snd_EvalSave
  by (rule evolves_saveLoop) (auto simp: targets_def)

subsection \<open>EvalTransforms\<close>

lemma EvalTransforms_nodes:
  "EvalTransforms E q tp identifier h =
     transformLoop E (q_EvalContext q) identifier (transformNodes E q tp) h"
  by (simp add: EvalTransforms_def transformNodes_def)

lemma assignVars_error: "assignVars ctx m h = (Some e, h') \<Longrightarrow> e = Panic"
  by (auto simp: assignVars_def split: if_splits option.splits)

lemma transformLoop_no_match:
  "list_all (\<lambda>n. fst n \<noteq> identifier) nodes \<Longrightarrow> snd (transformLoop E ctx identifier nodes h) = h"
  by (induction nodes arbitrary: h) (auto split: option.splits)

lemma transformLoop_failed_decode:
  "transformLoop E ctx identifier nodes h = (Some (LibErr d), h') \<Longrightarrow>
     \<exists>pre t post. nodes = pre @ (identifier, Some t) # post
        \<and> transformLoop E ctx identifier pre h = (None, h')
        \<and> DecodeBody E (t_Options t) (readCtx h' ctx) = Inl d"
proof (induction nodes arbitrary: h)
  case Nil
  then show ?case by simp
next
  case (Cons n nodes)
  obtain name tr where n: "n = (name, tr)" by (cases n)
  from Cons.prems obtain t where tr: "tr = Some t"
    by (cases tr) (simp_all add: n)
  show ?case
  proof (cases "name = identifier")
    case False
    then have "transformLoop E ctx identifier nodes h = (Some (LibErr d), h')"
      using Cons.prems by (simp add: n tr)
    from Cons.IH [OF this] obtain pre t' post where
      "nodes = pre @ (identifier, Some t') # post"
      "transformLoop E ctx identifier pre h = (None, h')"
      "DecodeBody E (t_Options t') (readCtx h' ctx) = Inl d" by blast
    then have "n # nodes = (n # pre) @ (identifier, Some t') # post
        \<and> transformLoop E ctx identifier (n # pre) h = (None, h')
        \<and> DecodeBody E (t_Options t') (readCtx h' ctx) = Inl d"
      using False by (simp add: n tr)
    then show ?thesis by blast
  next
    case True
    show ?thesis
    proof (cases "DecodeBody E (t_Options t) (readCtx h ctx)")
      case (Inl d')
      then have "d' = d" "h' = h"
        using Cons.prems by (simp_all add: n tr True)
      then have "n # nodes = [] @ (identifier, Some t) # nodes
          \<and> transformLoop E ctx identifier [] h = (None, h')
          \<and> DecodeBody E (t_Options t) (readCtx h' ctx) = Inl d"
        using Inl by (simp add: n tr True)
      then show ?thesis by blast
    next
      case (Inr mv)
      obtain e h1 where a: "assignVars ctx mv h = (e, h1)" by (cases "assignVars ctx mv h")
      have e: "e = None"
      proof (cases e)
        case None then show ?thesis .
      next
        case (Some err)
        then have "err = Panic" using assignVars_error a by blast
        then show ?thesis using Cons.prems by (simp add: n tr True Inr a Some)
      qed
      then have "transformLoop E ctx identifier nodes h1 = (Some (LibErr d), h')"
        using Cons.prems by (simp add: n tr True Inr a)
      from Cons.IH [OF this] obtain pre t' post where
        "nodes = pre @ (identifier, Some t') # post"
        "transformLoop E ctx identifier pre h1 = (None, h')"
        "DecodeBody E (t_Options t') (readCtx h' ctx) = Inl d" by blast
      then have "n # nodes = (n # pre) @ (identifier, Some t') # post
          \<and> transformLoop E ctx identifier (n # pre) h = (None, h')
          \<and> DecodeBody E (t_Options t') (readCtx h' ctx) = Inl d"
        by (simp add: n tr True Inr a e)
      then show ?thesis by blast
    qed
  qed
qed

text \<open>
  An error of a failed decode that \<open>EvalTransforms\<close> returns comes from the
  Transform of a node carrying the identifier, decoded against the store that is returned.
\<close>

lemma EvalTransforms_error_origin:
  assumes "EvalTransforms E q tp identifier h = (Some (LibErr d), h')"
  shows "\<exists>pre t post.
           transformNodes E q tp = pre @ (identifier, Some t) # post
         \<and> transformLoop E (q_EvalContext q) identifier pre h = (None, h')
         \<and> DecodeBody E (t_Options t) (readCtx h' (q_EvalContext q)) = Inl d"
proof -
  from assms have "transformLoop E (q_EvalContext q) identifier (transformNodes E q tp) h
      = (Some (LibErr d), h')"
    by (simp add: EvalTransforms_nodes)
  from transformLoop_failed_decode [OF this] show ?thesis .
qed

text \<open>
  The loop reaches a node when every node before it has a Transform and the Transforms of
  the earlier nodes carrying the identifier were decoded and merged without error.  When
  the decode of the Transform of that node fails, the loop returns its error and the store
  in which the decode ran.
\<close>

lemma transformLoop_reports:
  assumes "list_all (\<lambda>n. snd n \<noteq> None) pre"
    and "transformLoop E ctx identifier pre h = (None, h1)"
    and "DecodeBody E (t_Options t) (readCtx h1 ctx) = Inl d"
  shows "transformLoop E ctx identifier (pre @ (identifier, Some t) # post) h
           = (Some (LibErr d), h1)"
  using assms
proof (induction pre arbitrary: h)
  case Nil
  then show ?case by simp
next
  case (Cons n pre)
  obtain name tr where n: "n = (name, tr)" by (cases n)
  from Cons.prems(1) obtain t' where tr: "tr = Some t'"
    by (cases tr) (simp_all add: n)
  have rest: "list_all (\<lambda>n. snd n \<noteq> None) pre"
    using Cons.prems(1) by simp
  show ?case
  proof (cases "name = identifier")
    case False
    then have "transformLoop E ctx identifier pre h = (None, h1)"
      using Cons.prems(2) by (simp add: n tr)
    from Cons.IH [OF rest this Cons.prems(3)] show ?thesis
      using False by (simp add: n tr)
  next
    case True
    show ?thesis
    proof (cases "DecodeBody E (t_Options t') (readCtx h ctx)")
      case (Inl d')
      then show ?thesis using Cons.prems(2) by (simp add: n tr True)
    next
      case (Inr mv)
      obtain e h2 where a: "assignVars ctx mv h = (e, h2)" by (cases "assignVars ctx mv h")
      show ?thesis
      proof (cases e)
        case (Some err)
        then show ?thesis using Cons.prems(2) by (simp add: n tr True Inr a)
      next
        case None
        then have "transformLoop E ctx identifier pre h2 = (None, h1)"
          using Cons.prems(2) by (simp add: n tr True Inr a)
        from Cons.IH [OF rest this Cons.prems(3)] show ?thesis
          by (simp add: n tr True Inr a None)
      qed
    qed
  qed
qed

text \<open>The loop of \<open>EvalSave\<close> continues after the queries it has processed without
  error.\<close>

lemma saveLoop_append:
  "saveLoop E provider res before outs0 h0 = (Inr outs, hp) \<Longrightarrow>
     saveLoop E provider res (before @ qs) outs0 h0 = saveLoop E provider res qs outs hp"
  by (induction before arbitrary: outs0 h0) (auto split: prod.splits sum.splits)

text \<open>
  Claim C7.  Let the loop of \<open>EvalTransforms\<close> reach a node carrying the identifier
  (every node before it has a Transform, and the earlier nodes are processed without
  error, leaving the store \<open>h1\<close>), and let the decode of that node's Transform fail in
  \<open>h1\<close>.  Then \<open>EvalTransforms\<close> returns the error of that decode, and the store it
  leaves is \<open>h1\<close>, the one the failed decode ran against: no entry of the failing
  Transform is merged.  When no earlier node carries the identifier, that store is the one
  before the call.  And \<open>EvalSave\<close>, on a result of this kind and identifier whose query
  \<open>q\<close> it reaches (the queries before \<open>q\<close> are processed without error, the
  variables and chain functions of the result are written to the context of \<open>q\<close>,
  giving the store \<open>h\<close> in which the Transform step starts), returns that error, and
  the same store \<open>h1\<close>.
\<close>

theorem EvalTransforms_failed_decode:
  fixes E :: "('b, 'v, 'f, 'o, 'p) extern" and q :: "('b, 'a) QuerySchema"
  assumes "transformNodes E q tp = pre @ (identifier, Some t) # post"
    and "list_all (\<lambda>n. snd n \<noteq> None) pre"
    and "transformLoop E (q_EvalContext q) identifier pre h = (None, h1)"
    and "DecodeBody E (t_Options t) (readCtx h1 (q_EvalContext q)) = Inl d"
  shows "EvalTransforms E q tp identifier h = (Some (LibErr d), h1)
       \<and> (list_all (\<lambda>n. fst n \<noteq> identifier) pre \<longrightarrow> h1 = h)
       \<and> (\<forall>(s :: ('b, 'a, 'v) DynamicSchema) provider res c before after outs h0 hp ha.
            s_QuerySchemas s = before @ q # after
            \<and> saveLoop E provider res before Map.empty h0 = (Inr outs, hp)
            \<and> q_Name q = cr_QueryName res \<and> cr_Type res = tp \<and> cr_Identifier res = identifier
            \<and> q_EvalContext q = Some c
            \<and> assignVars (Some c) (GenerateContextVars E res) (ensureVariables c hp) = (None, ha)
            \<and> assignFuns (Some c)
                (BuildChainFunctions E provider (cr_Chain res) (sint (cr_BlockNumber res))) ha
                  = (None, h)
            \<longrightarrow> EvalSave E s provider res h0 = (Inl (LibErr d), h1))"
proof -
  have et: "EvalTransforms E q tp identifier h = (Some (LibErr d), h1)"
    using transformLoop_reports [OF assms(2,3,4), of post] assms(1)
    by (simp add: EvalTransforms_nodes)
  have same: "list_all (\<lambda>n. fst n \<noteq> identifier) pre \<longrightarrow> h1 = h"
  proof
    assume "list_all (\<lambda>n. fst n \<noteq> identifier) pre"
    then have "snd (transformLoop E (q_EvalContext q) identifier pre h) = h"
      by (rule transformLoop_no_match)
    then show "h1 = h" using assms(3) by simp
  qed
  have es: "EvalSave E s provider res h0 = (Inl (LibErr d), h1)"
    if qs: "s_QuerySchemas s = before @ q # after"
      and sl: "saveLoop E provider res before Map.empty h0 = (Inr outs, hp)"
      and nm: "q_Name q = cr_QueryName res" and tp: "cr_Type res = tp"
      and idf: "cr_Identifier res = identifier"
      and c: "q_EvalContext q = Some c"
      and av: "assignVars (Some c) (GenerateContextVars E res) (ensureVariables c hp) = (None, ha)"
      and af: "assignFuns (Some c)
                (BuildChainFunctions E provider (cr_Chain res) (sint (cr_BlockNumber res))) ha
                  = (None, h)"
    for s :: "('b, 'a, 'v) DynamicSchema" and provider res c before after outs h0 hp ha
  proof -
    have "saveQuery E provider res q hp = (Inl (LibErr d), h1)"
      using c av af et by (simp add: saveQuery_def tp idf)
    then have "saveLoop E provider res (q # after) outs hp = (Inl (LibErr d), h1)"
      using nm by simp
    then have "saveLoop E provider res (s_QuerySchemas s) Map.empty h0 = (Inl (LibErr d), h1)"
      using saveLoop_append [OF sl, of "q # after"] qs by simp
    then show ?thesis by (simp add: EvalSave_def)
  qed
  show ?thesis
    using et same es by blast
qed

text \<open>
  The first contract of the query has a Transform and another address; the Transform of
  the second contract fails at its second attribute.  \<open>EvalTransforms\<close> returns the
  error and the store unchanged.  \<open>EvalSave\<close> returns the error too, and the store
  holds the variables of the result and no variable \<open>a\<close> of the failed Transform.
\<close>

theorem EvalTransforms_failed_decode_witness:
  "transformNodes demoExtern c7_query Method
     = [(''0x000000000000000000000000000000000000000A'',
           Some (Transform [(''x'', Lit (NumberIntVal 5))]))]
       @ (''0x000000000000000000000000000000000000000b'',
           Some (Transform [(''a'', Lit (NumberIntVal 1)), (''b'', Var ''missing'')])) # []
   \<and> EvalTransforms demoExtern c7_query Method ''0x000000000000000000000000000000000000000b'' demoHeap
       = (Some (LibErr ''Unknown variable''), demoHeap)
   \<and> EvalSave demoExtern c7_schema () c7_result demoHeap
       = (Inl (LibErr ''Unknown variable''), c7_heap)
   \<and> ctxVars c7_heap 1 ''a'' = None
   \<and> ctxVars c7_heap 1 ''blocknumber'' = Some (NumberIntVal 100)"
proof -
  let ?pre = "[(''0x000000000000000000000000000000000000000A'',
                 Some (Transform [(''x'', Lit (NumberIntVal 5))]))]"
  let ?t = "Transform [(''a'', Lit (NumberIntVal 1)), (''b'', Var ''missing'')]"
  let ?id = "''0x000000000000000000000000000000000000000b''"
  have n: "transformNodes demoExtern c7_query Method = ?pre @ (?id, Some ?t) # []"
    by (simp add: transformNodes_def c7_query_def demo_defs eval_defs)
  have a: "list_all (\<lambda>n. snd n \<noteq> None) ?pre"
    by simp
  have l: "transformLoop demoExtern (q_EvalContext c7_query) ?id ?pre h = (None, h)" for h
    by simp
  have ctx: "q_EvalContext c7_query = Some 1"
    by (simp add: c7_query_def demo_defs)
  have d: "DecodeBody demoExtern (t_Options ?t) (readCtx demoHeap (q_EvalContext c7_query))
             = Inl ''Unknown variable''"
    by (simp add: ctx demo_defs heap_defs)
  have d': "DecodeBody demoExtern (t_Options ?t) (readCtx c7_heap (q_EvalContext c7_query))
             = Inl ''Unknown variable''"
    by (simp add: ctx c7_heap_def c7_result_def demo_defs heap_defs eval_defs)
  have s: "s_QuerySchemas c7_schema = [mkQuery ''p'' [] [] [] None (Some 1)] @ c7_query # []"
    by (simp add: c7_schema_def demo_defs)
  have sl: "saveLoop demoExtern () c7_result [mkQuery ''p'' [] [] [] None (Some 1)] Map.empty demoHeap
              = (Inr Map.empty, demoHeap)"
    by (simp add: c7_result_def demo_defs)
  have r: "q_Name c7_query = cr_QueryName c7_result" "cr_Type c7_result = Method"
      "cr_Identifier c7_result = ?id"
    by (simp_all add: c7_query_def c7_result_def demo_defs)
  have av: "assignVars (Some 1) (GenerateContextVars demoExtern c7_result) (ensureVariables 1 demoHeap)
      = (None, snd (assignVars (Some 1) (GenerateContextVars demoExtern c7_result) demoHeap))"
    by (simp add: demo_defs heap_defs eval_defs)
  have af: "assignFuns (Some 1)
        (BuildChainFunctions demoExtern () (cr_Chain c7_result) (sint (cr_BlockNumber c7_result)))
        (snd (assignVars (Some 1) (GenerateContextVars demoExtern c7_result) demoHeap))
      = (None, c7_heap)"
    by (simp add: c7_heap_def c7_result_def demo_defs heap_defs eval_defs)
  have v: "ctxVars c7_heap 1 ''a'' = None"
      "ctxVars c7_heap 1 ''blocknumber'' = Some (NumberIntVal 100)"
    by (simp_all add: c7_heap_def c7_result_def demo_defs heap_defs eval_defs)
  note A = EvalTransforms_failed_decode [OF n a l d]
  note B = EvalTransforms_failed_decode [OF n a l d']
  have "EvalSave demoExtern c7_schema () c7_result demoHeap
          = (Inl (LibErr ''Unknown variable''), c7_heap)"
    using B [THEN conjunct2, THEN conjunct2, rule_format, of c7_schema _ "[]" "()" c7_result]
      s sl r ctx av af by blast
  then show ?thesis
    using n A v by simp
qed

text \<open>
  Claim C1 (defect of the code).  The Transform of the node whose identifier is the
  result's is to run whatever the other nodes hold.  The loop returns nil at the first
  node without a Transform, matching or not: here the first contract has no Transform, the
  second one carries the identifier and a Transform, and \<open>EvalTransforms\<close> returns nil
  with the store unchanged.
\<close>

theorem EvalTransforms_early_return:
  "EvalTransforms demoExtern c1_query Method ''0x000000000000000000000000000000000000000b'' demoHeap
     = (None, demoHeap)
   \<and> contractNodes demoExtern c1_query ! 1
     = (''0x000000000000000000000000000000000000000b'',
        Some (Transform [(''doubled'', Lit (NumberIntVal 84))]))
   \<and> ctxVars demoHeap 1 ''doubled'' = None"
  by (simp add: c1_query_def demo_defs heap_defs eval_defs)

text \<open>
  Without the first contract the same Transform is decoded and merged.
\<close>

lemma EvalTransforms_alone:
  "ctxVars (snd (EvalTransforms demoExtern
       (c1_query\<lparr>q_ContractSchemas := tl (q_ContractSchemas c1_query)\<rparr>) Method
       ''0x000000000000000000000000000000000000000b'' demoHeap)) 1 ''doubled''
     = Some (NumberIntVal 84)"
  by (simp add: c1_query_def demo_defs heap_defs eval_defs)

subsection \<open>EvalSave on a result of an unknown query\<close>

lemma saveLoop_unknown:
  "\<forall>q\<in>set qs. q_Name q \<noteq> cr_QueryName res
     \<Longrightarrow> saveLoop E provider res qs outputs h = (Inr outputs, h)"
  by (induction qs) auto

lemma filterLoop_unknown:
  "\<forall>q\<in>set qs. q_Name q \<noteq> queryName \<Longrightarrow> filterLoop E h queryName qs filters = Inr filters"
  by (induction qs) auto

text \<open>
  Claim C9, as amended.  When no query has the result's query name, \<open>EvalSave\<close>
  returns the empty output map, which is not nil, and no error, whatever the decoders are,
  and leaves the store as it was.
\<close>

theorem EvalSave_unknown_query:
  assumes "\<forall>q\<in>set (s_QuerySchemas s). q_Name q \<noteq> cr_QueryName res"
  shows "EvalSave E s provider res h = (Inr (Some Map.empty), h)"
  using assms by (simp add: EvalSave_def EvalFilter_def saveLoop_unknown filterLoop_unknown)

theorem EvalSave_unknown_query_witness:
  "list_all (\<lambda>q. q_Name q \<noteq> cr_QueryName c9_result) (s_QuerySchemas c5_schema)
   \<and> EvalSave demoExtern c5_schema () c9_result demoHeap = (Inr (Some Map.empty), demoHeap)"
proof -
  have a: "\<forall>q\<in>set (s_QuerySchemas c5_schema). q_Name q \<noteq> cr_QueryName c9_result"
    by (simp add: c5_schema_def c5_query_def c9_result_def demo_defs)
  show ?thesis
    using a EvalSave_unknown_query [OF a] by (simp add: list_all_iff)
qed

text \<open>
  Claim C9 as stated fails: the value returned for an unknown query is not the
  \<open>(nil, nil)\<close> of a filtered-out result.
\<close>

theorem EvalSave_unknown_query_not_nil:
  "fst (EvalSave demoExtern c5_schema () c9_result demoHeap) \<noteq> Inr None"
  by (simp add: c5_schema_def c5_query_def c9_result_def demo_defs heap_defs eval_defs)

subsection \<open>The Filter\<close>

lemma all_true: "list_all (\<lambda>result. result) bs = (False \<notin> set bs)"
  by (induction bs) auto

text \<open>
  When the queries of one name have the same Filter and their contexts hold the same
  variables and functions, every decode of the loop of \<open>EvalFilter\<close> gives the same
  list.
\<close>

lemma filterLoop_same:
  assumes "\<forall>q'\<in>set qs. q_Name q' = queryName \<longrightarrow>
             q_Filters q' = q_Filters q
             \<and> readCtx h (q_EvalContext q') = readCtx h (q_EvalContext q)"
  shows "filterLoop E h queryName qs filters =
     (if \<forall>q'\<in>set qs. q_Name q' \<noteq> queryName then Inr filters
      else (case q_Filters q of
              None \<Rightarrow> Inl (Inr True)
            | Some fb \<Rightarrow>
                (case HcldecDecode E fb (readCtx h (q_EvalContext q)) of
                   Inl d \<Rightarrow> Inl (Inl (LibErr d))
                 | Inr v \<Rightarrow>
                     (case FromCtyValue E v of
                        Inl d \<Rightarrow> Inl (Inl (LibErr d))
                      | Inr bs \<Rightarrow> Inr bs))))"
  using assms
proof (induction qs arbitrary: filters)
  case Nil
  then show ?case by simp
next
  case (Cons x qs)
  have rest: "\<forall>q'\<in>set qs. q_Name q' = queryName \<longrightarrow>
             q_Filters q' = q_Filters q
             \<and> readCtx h (q_EvalContext q') = readCtx h (q_EvalContext q)"
    using Cons.prems by simp
  note IH = Cons.IH [OF rest]
  show ?case
  proof (cases "q_Name x = queryName")
    case False
    then show ?thesis by (simp add: IH)
  next
    case True
    then have x: "q_Filters x = q_Filters q"
        "readCtx h (q_EvalContext x) = readCtx h (q_EvalContext q)"
      using Cons.prems by simp_all
    show ?thesis
      by (simp add: True x IH split: option.splits sum.splits)
  qed
qed

lemma EvalFilter_same:
  assumes "q \<in> set (s_QuerySchemas s)" "q_Name q = queryName"
    and "\<forall>q'\<in>set (s_QuerySchemas s). q_Name q' = queryName \<longrightarrow>
             q_Filters q' = q_Filters q
             \<and> readCtx h (q_EvalContext q') = readCtx h (q_EvalContext q)"
  shows "EvalFilter E s queryName h = filterQuery E h q"
proof -
  have "\<not> (\<forall>q'\<in>set (s_QuerySchemas s). q_Name q' \<noteq> queryName)"
    using assms(1,2) by blast
  then have "filterLoop E h queryName (s_QuerySchemas s) [] =
      (case q_Filters q of
         None \<Rightarrow> Inl (Inr True)
       | Some fb \<Rightarrow>
           (case HcldecDecode E fb (readCtx h (q_EvalContext q)) of
              Inl d \<Rightarrow> Inl (Inl (LibErr d))
            | Inr v \<Rightarrow>
                (case FromCtyValue E v of
                   Inl d \<Rightarrow> Inl (Inl (LibErr d))
                 | Inr bs \<Rightarrow> Inr bs)))"
    unfolding filterLoop_same [OF assms(3)] by (rule if_not_P)
  then show ?thesis
    by (simp add: EvalFilter_def filterQuery_def all_true split: option.splits sum.splits)
qed

text \<open>
  The output map that the loop of \<open>EvalSave\<close> leaves is the Save of the last query
  carrying the result's name, decoded against the store that the loop leaves.
\<close>

lemma saveQuery_output:
  "saveQuery E provider res q h = (Inr outputs, h') \<Longrightarrow>
     DecodeBody E (sv_Options (q_Saves q)) (readCtx h' (q_EvalContext q)) = Inr outputs"
  by (auto simp: saveQuery_def split: option.splits prod.splits sum.splits)

lemma saveLoop_last:
  assumes "saveLoop E provider res qs outs0 h = (Inr outputs, h')"
    and "filter (\<lambda>q'. q_Name q' = cr_QueryName res) qs \<noteq> []"
  shows "DecodeBody E (sv_Options (q_Saves (last (filter (\<lambda>q'. q_Name q' = cr_QueryName res) qs))))
           (readCtx h' (q_EvalContext (last (filter (\<lambda>q'. q_Name q' = cr_QueryName res) qs))))
         = Inr outputs"
  using assms
proof (induction qs arbitrary: outs0 h)
  case Nil
  then show ?case by simp
next
  case (Cons x qs)
  show ?case
  proof (cases "q_Name x = cr_QueryName res")
    case False
    then show ?thesis using Cons by simp
  next
    case True
    obtain r h1 where sq: "saveQuery E provider res x h = (r, h1)"
      by (cases "saveQuery E provider res x h")
    obtain outs1 where r: "r = Inr outs1"
      using Cons.prems(1) True sq by (cases r) simp_all
    have sl: "saveLoop E provider res qs outs1 h1 = (Inr outputs, h')"
      using Cons.prems(1) True sq r by simp
    show ?thesis
    proof (cases "filter (\<lambda>q'. q_Name q' = cr_QueryName res) qs = []")
      case False
      then show ?thesis using Cons.IH [OF sl False] True by simp
    next
      case e: True
      then have "\<forall>q'\<in>set qs. q_Name q' \<noteq> cr_QueryName res"
        by (simp add: filter_empty_conv)
      then have "saveLoop E provider res qs outs1 h1 = (Inr outs1, h1)"
        by (rule saveLoop_unknown)
      then have "outputs = outs1" "h' = h1" using sl by simp_all
      then show ?thesis
        using saveQuery_output [of E provider res x h outs1 h1] sq r True e by simp
    qed
  qed
qed

text \<open>
  Claim C5, as amended.  Let \<open>q\<close> be a query with the result's query name, let every
  query of that name have the Filter of \<open>q\<close> (or, like \<open>q\<close>, none) and a context
  holding the same variables and functions (as is the case when the name is unique, and
  for the copies that one loop template gives on the one context of a loaded schema), and
  let the Transform and Save steps of the queries of that name succeed, leaving the output
  map \<open>outputs\<close> and the store \<open>h'\<close>.  Without a Filter \<open>EvalSave\<close> returns
  \<open>outputs\<close>.  With a Filter it decodes the Filter against the context in \<open>h'\<close> as a
  list of booleans, returns \<open>(nil, nil)\<close> when one of them is false, and \<open>outputs\<close>
  otherwise; a failed decode is the error returned.  \<open>outputs\<close> is the Save of the last
  query of that name, decoded against the context in \<open>h'\<close>.
\<close>

theorem EvalSave_filter:
  fixes E :: "('b, 'v, 'f, 'o, 'p) extern" and s :: "('b, 'a, 'v) DynamicSchema"
  assumes "q \<in> set (s_QuerySchemas s)"
    and "q_Name q = cr_QueryName res"
    and "\<forall>q'\<in>set (s_QuerySchemas s). q_Name q' = cr_QueryName res \<longrightarrow>
           q_Filters q' = q_Filters q
           \<and> readCtx h' (q_EvalContext q') = readCtx h' (q_EvalContext q)"
    and "saveLoop E provider res (s_QuerySchemas s) Map.empty h = (Inr outputs, h')"
  shows "EvalSave E s provider res h =
     (case q_Filters q of
        None \<Rightarrow> (Inr (Some outputs), h')
      | Some fb \<Rightarrow>
          (case HcldecDecode E fb (readCtx h' (q_EvalContext q)) of
             Inl d \<Rightarrow> (Inl (LibErr d), h')
           | Inr v \<Rightarrow>
               (case FromCtyValue E v of
                  Inl d \<Rightarrow> (Inl (LibErr d), h')
                | Inr bs \<Rightarrow> if False \<in> set bs then (Inr None, h') else (Inr (Some outputs), h'))))
   \<and> DecodeBody E
         (sv_Options (q_Saves (last (filter (\<lambda>q'. q_Name q' = cr_QueryName res) (s_QuerySchemas s)))))
         (readCtx h'
            (q_EvalContext (last (filter (\<lambda>q'. q_Name q' = cr_QueryName res) (s_QuerySchemas s)))))
       = Inr outputs"
proof -
  have ef: "EvalFilter E s (cr_QueryName res) h' = filterQuery E h' q"
    by (rule EvalFilter_same [OF assms(1,2,3)])
  have ne: "filter (\<lambda>q'. q_Name q' = cr_QueryName res) (s_QuerySchemas s) \<noteq> []"
    using assms(1,2) by (auto simp: filter_empty_conv)
  have "EvalSave E s provider res h =
     (case q_Filters q of
        None \<Rightarrow> (Inr (Some outputs), h')
      | Some fb \<Rightarrow>
          (case HcldecDecode E fb (readCtx h' (q_EvalContext q)) of
             Inl d \<Rightarrow> (Inl (LibErr d), h')
           | Inr v \<Rightarrow>
               (case FromCtyValue E v of
                  Inl d \<Rightarrow> (Inl (LibErr d), h')
                | Inr bs \<Rightarrow> if False \<in> set bs then (Inr None, h') else (Inr (Some outputs), h'))))"
    by (simp add: EvalSave_def assms(4) ef filterQuery_def split: option.splits sum.splits)
  then show ?thesis
    using saveLoop_last [OF assms(4) ne] by simp
qed

text \<open>
  The Filter \<open>[true, false]\<close> suppresses a Save output that is produced without it, in a
  schema with one query of the name and in a schema with two.
\<close>

theorem EvalSave_filter_witness:
  "c5_query \<in> set (s_QuerySchemas c5_schema)
   \<and> q_Name c5_query = cr_QueryName c5_result
   \<and> fst (saveLoop demoExtern () c5_result (s_QuerySchemas c5_schema) Map.empty demoHeap)
       = Inr [''block'' \<mapsto> NumberIntVal 100]
   \<and> fst (EvalSave demoExtern c5_schema () c5_result demoHeap) = Inr None
   \<and> fst (EvalSave demoExtern c10_schema () c5_result demoHeap)
       = Inr (Some [''block'' \<mapsto> NumberIntVal 100])
   \<and> list_all (\<lambda>q'. q_Name q' = cr_QueryName c5_result \<and> q_Filters q' = q_Filters c5_query
                    \<and> q_EvalContext q' = q_EvalContext c5_query) (s_QuerySchemas c5_same)
   \<and> length (s_QuerySchemas c5_same) = 2
   \<and> fst (saveLoop demoExtern () c5_result (s_QuerySchemas c5_same) Map.empty demoHeap)
       = Inr [''time'' \<mapsto> NumberIntVal 1700000000]
   \<and> fst (EvalSave demoExtern c5_same () c5_result demoHeap) = Inr None"
proof -
  let ?h1 = "snd (saveLoop demoExtern () c5_result (s_QuerySchemas c5_schema) Map.empty demoHeap)"
  let ?h2 = "snd (saveLoop demoExtern () c5_result (s_QuerySchemas c10_schema) Map.empty demoHeap)"
  let ?h3 = "snd (saveLoop demoExtern () c5_result (s_QuerySchemas c5_same) Map.empty demoHeap)"
  have flt: "q_Filters c5_query = Some [(''filter'', Lit (ListVal [BoolVal True, BoolVal False]))]"
    by (simp add: c5_query_def demo_defs)
  have b: "c5_query \<in> set (s_QuerySchemas c5_schema)"
    and c: "q_Name c5_query = cr_QueryName c5_result"
    by (simp_all add: c5_schema_def c5_query_def c5_result_def demo_defs)
  have a: "\<forall>q'\<in>set (s_QuerySchemas c5_schema). q_Name q' = cr_QueryName c5_result \<longrightarrow>
           q_Filters q' = q_Filters c5_query
           \<and> readCtx ?h1 (q_EvalContext q') = readCtx ?h1 (q_EvalContext c5_query)"
    by (simp add: c5_schema_def demo_defs)
  have f: "fst (saveLoop demoExtern () c5_result (s_QuerySchemas c5_schema) Map.empty demoHeap)
             = Inr [''block'' \<mapsto> NumberIntVal 100]"
    by (simp add: c5_schema_def c5_query_def c5_result_def demo_defs heap_defs eval_defs)
  then have d: "saveLoop demoExtern () c5_result (s_QuerySchemas c5_schema) Map.empty demoHeap
      = (Inr [''block'' \<mapsto> NumberIntVal 100], ?h1)"
    by (simp add: prod_eq_iff)
  define q where "q = hd (s_QuerySchemas c10_schema)"
  have b': "q \<in> set (s_QuerySchemas c10_schema)"
    and c': "q_Name q = cr_QueryName c5_result"
    and n': "q_Filters q = None"
    by (simp_all add: q_def c10_schema_def c5_result_def demo_defs)
  have a': "\<forall>q'\<in>set (s_QuerySchemas c10_schema). q_Name q' = cr_QueryName c5_result \<longrightarrow>
           q_Filters q' = q_Filters q
           \<and> readCtx ?h2 (q_EvalContext q') = readCtx ?h2 (q_EvalContext q)"
    by (simp add: q_def c10_schema_def demo_defs)
  have f': "fst (saveLoop demoExtern () c5_result (s_QuerySchemas c10_schema) Map.empty demoHeap)
              = Inr [''block'' \<mapsto> NumberIntVal 100]"
    by (simp add: c10_schema_def c5_result_def demo_defs heap_defs eval_defs)
  then have d': "saveLoop demoExtern () c5_result (s_QuerySchemas c10_schema) Map.empty demoHeap
      = (Inr [''block'' \<mapsto> NumberIntVal 100], ?h2)"
    by (simp add: prod_eq_iff)
  have b'': "c5_query \<in> set (s_QuerySchemas c5_same)"
    by (simp add: c5_same_def demo_defs)
  have l'': "list_all (\<lambda>q'. q_Name q' = cr_QueryName c5_result \<and> q_Filters q' = q_Filters c5_query
                    \<and> q_EvalContext q' = q_EvalContext c5_query) (s_QuerySchemas c5_same)"
    and n'': "length (s_QuerySchemas c5_same) = 2"
    by (simp_all add: c5_same_def c5_query_def c5_result_def demo_defs)
  have a'': "\<forall>q'\<in>set (s_QuerySchemas c5_same). q_Name q' = cr_QueryName c5_result \<longrightarrow>
           q_Filters q' = q_Filters c5_query
           \<and> readCtx ?h3 (q_EvalContext q') = readCtx ?h3 (q_EvalContext c5_query)"
    using l'' by (simp add: list_all_iff)
  have f'': "fst (saveLoop demoExtern () c5_result (s_QuerySchemas c5_same) Map.empty demoHeap)
              = Inr [''time'' \<mapsto> NumberIntVal 1700000000]"
    by (simp add: c5_same_def c5_query_def c5_result_def demo_defs heap_defs eval_defs)
  then have d'': "saveLoop demoExtern () c5_result (s_QuerySchemas c5_same) Map.empty demoHeap
      = (Inr [''time'' \<mapsto> NumberIntVal 1700000000], ?h3)"
    by (simp add: prod_eq_iff)
  note A = EvalSave_filter [OF b c a d, THEN conjunct1]
  note B = EvalSave_filter [OF b' c' a' d', THEN conjunct1]
  note C = EvalSave_filter [OF b'' c a'' d'', THEN conjunct1]
  have r1: "fst (EvalSave demoExtern c5_schema () c5_result demoHeap) = Inr None"
    unfolding A by (simp add: flt demo_defs)
  have r2: "fst (EvalSave demoExtern c10_schema () c5_result demoHeap)
       = Inr (Some [''block'' \<mapsto> NumberIntVal 100])"
    unfolding B by (simp add: n')
  have r3: "fst (EvalSave demoExtern c5_same () c5_result demoHeap) = Inr None"
    unfolding C by (simp add: flt demo_defs)
  show ?thesis
    using b c f r1 r2 l'' n'' f'' r3 by simp
qed

text \<open>
  Claim C5 as stated fails.  Two queries have the result's name.  The Filter of the first
  is \<open>[false]\<close>: decoded after the Transform and Save steps it rejects the result.  The
  Filter of the second is \<open>[true]\<close>.  The loop of \<open>EvalFilter\<close> decodes each list
  into the same variable and tests it after the loop, so the list decoded last decides,
  and \<open>EvalSave\<close> returns the Save output.
\<close>

theorem EvalSave_filter_last_decides:
  "q_Name (hd (s_QuerySchemas c5_dup)) = cr_QueryName c5_result
   \<and> q_Filters (hd (s_QuerySchemas c5_dup)) = Some [(''filter'', Lit (ListVal [BoolVal False]))]
   \<and> filterQuery demoExtern (snd (EvalSave demoExtern c5_dup () c5_result demoHeap))
        (hd (s_QuerySchemas c5_dup)) = Inr False
   \<and> fst (EvalSave demoExtern c5_dup () c5_result demoHeap)
        = Inr (Some [''block'' \<mapsto> NumberIntVal 100])"
  by (simp add: c5_dup_def c5_result_def filterQuery_def demo_defs heap_defs eval_defs)

subsection \<open>Other queries\<close>

lemma agree_refl: "agree T h h"
  by (simp add: agree_def)

lemma agree_readCtx:
  "agree T h k \<Longrightarrow> (\<forall>c. ctx = Some c \<longrightarrow> c \<in> T) \<Longrightarrow> readCtx h ctx = readCtx k ctx"
  by (cases ctx) (auto simp: agree_def readCtx_def ctxVars_def ctxFuns_def split: option.splits)

lemma agree_ensureVariables:
  "agree T h k \<Longrightarrow> c \<in> T \<Longrightarrow> agree T (ensureVariables c h) (ensureVariables c k)"
  unfolding agree_def ensureVariables_def newMap_def
  by (auto split: option.splits)

lemma agree_assignVars:
  assumes "agree T h k" "\<forall>c. ctx = Some c \<longrightarrow> c \<in> T"
  shows "fst (assignVars ctx m h) = fst (assignVars ctx m k)
       \<and> agree T (snd (assignVars ctx m h)) (snd (assignVars ctx m k))"
  using assms unfolding agree_def assignVars_def
  by (cases ctx) (auto split: option.splits)

lemma agree_assignFuns:
  assumes "agree T h k" "\<forall>c. ctx = Some c \<longrightarrow> c \<in> T"
  shows "fst (assignFuns ctx m h) = fst (assignFuns ctx m k)
       \<and> agree T (snd (assignFuns ctx m h)) (snd (assignFuns ctx m k))"
  using assms unfolding agree_def assignFuns_def
  by (cases ctx) (auto split: option.splits)

lemma agree_transformLoop:
  assumes "\<forall>c. ctx = Some c \<longrightarrow> c \<in> T"
  shows "agree T h k \<Longrightarrow>
     fst (transformLoop E ctx identifier nodes h) = fst (transformLoop E ctx identifier nodes k)
     \<and> agree T (snd (transformLoop E ctx identifier nodes h))
          (snd (transformLoop E ctx identifier nodes k))"
proof (induction nodes arbitrary: h k)
  case Nil
  then show ?case by simp
next
  case (Cons n nodes)
  obtain name tr where n: "n = (name, tr)" by (cases n)
  have rc: "readCtx h ctx = readCtx k ctx"
    by (rule agree_readCtx [OF Cons.prems assms])
  show ?case
  proof (cases tr)
    case None
    then show ?thesis using Cons.prems by (simp add: n)
  next
    case (Some t)
    show ?thesis
    proof (cases "name = identifier")
      case False
      then show ?thesis using Cons by (simp add: n Some)
    next
      case True
      show ?thesis
      proof (cases "DecodeBody E (t_Options t) (readCtx k ctx)")
        case (Inl d)
        then show ?thesis using Cons.prems by (simp add: n Some True rc)
      next
        case (Inr mv)
        obtain e1 h1 where a1: "assignVars ctx mv h = (e1, h1)" by (cases "assignVars ctx mv h")
        obtain e2 k1 where a2: "assignVars ctx mv k = (e2, k1)" by (cases "assignVars ctx mv k")
        have ag: "e1 = e2" "agree T h1 k1"
          using agree_assignVars [OF Cons.prems assms, of mv] by (simp_all add: a1 a2)
        show ?thesis
        proof (cases e2)
          case None
          then show ?thesis
            using Cons.IH [OF ag(2)] by (simp add: n Some True rc Inr a1 a2 ag(1))
        next
          case (Some err)
          then show ?thesis
            using ag by (simp add: n \<open>tr = Some t\<close> True rc Inr a1 a2)
        qed
      qed
    qed
  qed
qed

lemma agree_EvalTransforms:
  assumes "agree T h k" "\<forall>c. q_EvalContext q = Some c \<longrightarrow> c \<in> T"
  shows "fst (EvalTransforms E q tp identifier h) = fst (EvalTransforms E q tp identifier k)
       \<and> agree T (snd (EvalTransforms E q tp identifier h)) (snd (EvalTransforms E q tp identifier k))"
  unfolding EvalTransforms_def
  by (simp add: agree_transformLoop [OF assms(2) assms(1)])

lemma agree_saveQuery:
  assumes ag: "agree T h k" and c: "\<forall>c. q_EvalContext q = Some c \<longrightarrow> c \<in> T"
  shows "fst (saveQuery E provider res q h) = fst (saveQuery E provider res q k)
       \<and> agree T (snd (saveQuery E provider res q h)) (snd (saveQuery E provider res q k))"
proof (cases "q_EvalContext q")
  case None
  then show ?thesis using ag by (simp add: saveQuery_def)
next
  case (Some c)
  then have cT: "c \<in> T" using c by simp
  have cs: "\<forall>c'. Some c = Some c' \<longrightarrow> c' \<in> T" using cT by simp
  define fs where "fs = BuildChainFunctions E provider (cr_Chain res) (sint (cr_BlockNumber res))"
  obtain e1 h1 where h1: "assignVars (Some c) (GenerateContextVars E res) (ensureVariables c h) = (e1, h1)"
    by (cases "assignVars (Some c) (GenerateContextVars E res) (ensureVariables c h)")
  obtain e1' k1 where k1: "assignVars (Some c) (GenerateContextVars E res) (ensureVariables c k) = (e1', k1)"
    by (cases "assignVars (Some c) (GenerateContextVars E res) (ensureVariables c k)")
  have s1: "e1 = e1'" "agree T h1 k1"
    using agree_assignVars [OF agree_ensureVariables [OF ag cT] cs, of "GenerateContextVars E res"]
    by (simp_all add: h1 k1)
  obtain e2 h2 where h2: "assignFuns (Some c) fs h1 = (e2, h2)" by (cases "assignFuns (Some c) fs h1")
  obtain e2' k2 where k2: "assignFuns (Some c) fs k1 = (e2', k2)" by (cases "assignFuns (Some c) fs k1")
  have s2: "e2 = e2'" "agree T h2 k2"
    using agree_assignFuns [OF s1(2) cs, of fs] by (simp_all add: h2 k2)
  obtain e3 h3 where h3: "EvalTransforms E q (cr_Type res) (cr_Identifier res) h2 = (e3, h3)"
    by (cases "EvalTransforms E q (cr_Type res) (cr_Identifier res) h2")
  obtain e3' k3 where k3: "EvalTransforms E q (cr_Type res) (cr_Identifier res) k2 = (e3', k3)"
    by (cases "EvalTransforms E q (cr_Type res) (cr_Identifier res) k2")
  have s3: "e3 = e3'" "agree T h3 k3"
    using agree_EvalTransforms [OF s2(2) c, of E "cr_Type res" "cr_Identifier res"]
    by (simp_all add: h3 k3)
  have rc: "readCtx h3 (Some c) = readCtx k3 (Some c)"
    by (rule agree_readCtx [OF s3(2) cs])
  show ?thesis
    using s1 s2 s3
    by (simp add: saveQuery_def Some h1 k1 fs_def [symmetric] h2 k2 h3 k3 rc
        split: option.splits sum.splits)
qed

lemma agree_saveLoop:
  assumes "\<forall>q\<in>set qs. q_Name q = cr_QueryName res \<longrightarrow> (\<forall>c. q_EvalContext q = Some c \<longrightarrow> c \<in> T)"
  shows "agree T h k \<Longrightarrow>
     fst (saveLoop E provider res qs outputs h) = fst (saveLoop E provider res qs outputs k)
     \<and> agree T (snd (saveLoop E provider res qs outputs h)) (snd (saveLoop E provider res qs outputs k))"
  using assms
proof (induction qs arbitrary: outputs h k)
  case Nil
  then show ?case by simp
next
  case (Cons q qs)
  show ?case
  proof (cases "q_Name q = cr_QueryName res")
    case False
    then show ?thesis using Cons by simp
  next
    case True
    then have c: "\<forall>c. q_EvalContext q = Some c \<longrightarrow> c \<in> T" using Cons.prems(2) by simp
    obtain r h1 where h1: "saveQuery E provider res q h = (r, h1)"
      by (cases "saveQuery E provider res q h")
    obtain r' k1 where k1: "saveQuery E provider res q k = (r', k1)"
      by (cases "saveQuery E provider res q k")
    have s: "r = r'" "agree T h1 k1"
      using agree_saveQuery [OF Cons.prems(1) c, of E provider res] by (simp_all add: h1 k1)
    show ?thesis
    proof (cases r')
      case (Inl e)
      then show ?thesis using s by (simp add: True h1 k1)
    next
      case (Inr out)
      have "\<forall>q\<in>set qs. q_Name q = cr_QueryName res \<longrightarrow> (\<forall>c. q_EvalContext q = Some c \<longrightarrow> c \<in> T)"
        using Cons.prems(2) by simp
      from Cons.IH [OF s(2) this, of out] show ?thesis
        by (simp add: True h1 k1 s(1) Inr)
    qed
  qed
qed

lemma agree_filterLoop:
  assumes "\<forall>q\<in>set qs. q_Name q = queryName \<longrightarrow> (\<forall>c. q_EvalContext q = Some c \<longrightarrow> c \<in> T)"
    and "agree T h k"
  shows "filterLoop E h queryName qs filters = filterLoop E k queryName qs filters"
  using assms(1)
proof (induction qs arbitrary: filters)
  case Nil
  then show ?case by simp
next
  case (Cons q qs)
  show ?case
  proof (cases "q_Name q = queryName")
    case False
    then show ?thesis using Cons by simp
  next
    case True
    then have "readCtx h (q_EvalContext q) = readCtx k (q_EvalContext q)"
      using Cons.prems by (intro agree_readCtx [OF assms(2)]) simp
    then show ?thesis
      using Cons by (simp add: True split: option.splits sum.splits)
  qed
qed

lemma agree_EvalSave:
  assumes "agree (targets s res) h k"
  shows "fst (EvalSave E s provider res h) = fst (EvalSave E s provider res k)
       \<and> agree (targets s res) (snd (EvalSave E s provider res h)) (snd (EvalSave E s provider res k))"
proof -
  have t: "\<forall>q\<in>set (s_QuerySchemas s). q_Name q = cr_QueryName res \<longrightarrow>
             (\<forall>c. q_EvalContext q = Some c \<longrightarrow> c \<in> targets s res)"
    by (auto simp: targets_def)
  obtain r h1 where h1: "saveLoop E provider res (s_QuerySchemas s) Map.empty h = (r, h1)"
    by (cases "saveLoop E provider res (s_QuerySchemas s) Map.empty h")
  obtain r' k1 where k1: "saveLoop E provider res (s_QuerySchemas s) Map.empty k = (r', k1)"
    by (cases "saveLoop E provider res (s_QuerySchemas s) Map.empty k")
  have sl: "r = r'" "agree (targets s res) h1 k1"
    using agree_saveLoop [OF t assms, of E provider Map.empty] by (simp_all add: h1 k1)
  have fl: "EvalFilter E s (cr_QueryName res) h1 = EvalFilter E s (cr_QueryName res) k1"
    using agree_filterLoop [OF t sl(2), of E "[]"] by (simp add: EvalFilter_def)
  show ?thesis
    using sl by (simp add: EvalSave_def h1 k1 fl split: sum.splits)
qed

text \<open>
  Claim C8, as amended.  \<open>EvalSave\<close> leaves unchanged the context of a query whose
  context object is not that of a query named by the result, and whose variable and
  function maps are not those of such a query.  It reads the contexts of the queries named
  by the result only: from any store that agrees with the given one on those contexts it
  returns the same value and leaves them equal again.
\<close>

theorem EvalSave_frame:
  assumes "q_EvalContext q2 = Some c2"
    and "c2 \<notin> targets s res"
    and "\<forall>r. Variables (ctxs h c2) = Some r \<longrightarrow>
           r < next_ref h \<and> (\<forall>c\<in>targets s res. Variables (ctxs h c) \<noteq> Some r)"
    and "\<forall>r. Functions (ctxs h c2) = Some r \<longrightarrow> (\<forall>c\<in>targets s res. Functions (ctxs h c) \<noteq> Some r)"
    and "EvalSave E s provider res h = (out, h')"
  shows "ctxs h' c2 = ctxs h c2 \<and> readCtx h' (q_EvalContext q2) = readCtx h (q_EvalContext q2)
       \<and> (\<forall>k. agree (targets s res) h k \<longrightarrow>
              fst (EvalSave E s provider res k) = out
              \<and> agree (targets s res) h' (snd (EvalSave E s provider res k)))"
proof -
  have rd: "fst (EvalSave E s provider res k) = out
              \<and> agree (targets s res) h' (snd (EvalSave E s provider res k))"
    if "agree (targets s res) h k" for k
    using agree_EvalSave [OF that, of E provider] assms(5) by simp
  have ev: "evolves (targets s res) h h'"
    using evolves_EvalSave [of s res h E provider] assms(5) by simp
  have V: "Variables (ctxs h' c2) = Variables (ctxs h c2)"
    using ev assms(2) unfolding evolves_def by blast
  have F: "Functions (ctxs h' c2) = Functions (ctxs h c2)"
    using ev unfolding evolves_def by blast
  have vm: "vmaps h' r = vmaps h r" if "Variables (ctxs h c2) = Some r" for r
    using ev assms(3) that unfolding evolves_def by blast
  have fm: "fmaps h' r = fmaps h r" if "Functions (ctxs h c2) = Some r" for r
    using ev assms(4) that unfolding evolves_def by blast
  have "ctxVars h' c2 = ctxVars h c2"
    by (simp add: ctxVars_def V vm split: option.splits)
  moreover have "ctxFuns h' c2 = ctxFuns h c2"
    by (simp add: ctxFuns_def F fm split: option.splits)
  moreover have "ctxs h' c2 = ctxs h c2"
    using V F by (simp add: EvalContext.equality)
  ultimately show ?thesis
    using rd by (simp add: readCtx_def assms(1))
qed

text \<open>
  Two queries with separate context objects and maps: a result of the first leaves the
  context of the second as it was, and returns the same value when the variables of the
  second are different.
\<close>

theorem EvalSave_frame_witness:
  "3 \<notin> targets c8_separate c8_result
   \<and> q_EvalContext (s_QuerySchemas c8_separate ! 1) = Some 3
   \<and> ctxs (snd (EvalSave demoExtern c8_separate () c8_result c8_heap)) 3 = ctxs c8_heap 3
   \<and> readCtx (snd (EvalSave demoExtern c8_separate () c8_result c8_heap)) (Some 3)
       = readCtx c8_heap (Some 3)
   \<and> ctxVars (c8_heap\<lparr>vmaps := (vmaps c8_heap)(2 := Map.empty)\<rparr>) 3 \<noteq> ctxVars c8_heap 3
   \<and> fst (EvalSave demoExtern c8_separate () c8_result
            (c8_heap\<lparr>vmaps := (vmaps c8_heap)(2 := Map.empty)\<rparr>))
       = fst (EvalSave demoExtern c8_separate () c8_result c8_heap)"
proof -
  define k where "k = c8_heap\<lparr>vmaps := (vmaps c8_heap)(2 := Map.empty)\<rparr>"
  have q: "q_EvalContext (s_QuerySchemas c8_separate ! 1) = Some 3"
    by (simp add: c8_separate_def demo_defs)
  have t: "targets c8_separate c8_result = {1}"
    by (auto simp: targets_def c8_separate_def c8_result_def demo_defs)
  have a: "3 \<notin> targets c8_separate c8_result"
    by (simp add: t)
  have v: "\<forall>r. Variables (ctxs c8_heap 3) = Some r \<longrightarrow>
           r < next_ref c8_heap \<and> (\<forall>c\<in>targets c8_separate c8_result. Variables (ctxs c8_heap c) \<noteq> Some r)"
    by (simp add: t c8_heap_def)
  have f: "\<forall>r. Functions (ctxs c8_heap 3) = Some r \<longrightarrow>
           (\<forall>c\<in>targets c8_separate c8_result. Functions (ctxs c8_heap c) \<noteq> Some r)"
    by (simp add: t c8_heap_def)
  have ag: "agree (targets c8_separate c8_result) c8_heap k"
    by (simp add: t agree_def k_def c8_heap_def)
  have d: "ctxVars k 3 \<noteq> ctxVars c8_heap 3"
  proof
    assume "ctxVars k 3 = ctxVars c8_heap 3"
    then have "ctxVars k 3 ''item'' = ctxVars c8_heap 3 ''item''" by simp
    then show False by (simp add: k_def c8_heap_def ctxVars_def)
  qed
  note fr = EvalSave_frame [OF q a v f, of demoExtern "()"
        "fst (EvalSave demoExtern c8_separate () c8_result c8_heap)"
        "snd (EvalSave demoExtern c8_separate () c8_result c8_heap)"]
  have "fst (EvalSave demoExtern c8_separate () c8_result k)
      = fst (EvalSave demoExtern c8_separate () c8_result c8_heap)"
    using fr ag by simp
  then show ?thesis
    using a q d fr unfolding k_def by simp
qed

text \<open>
  Claim C8 as stated fails: the queries of a loaded schema share one context object, and
  a result of the first query writes \<open>blocknumber\<close> into the context of the second.
\<close>

theorem EvalSave_shared_context:
  "q_Name (s_QuerySchemas c8_shared ! 1) \<noteq> cr_QueryName c8_result
   \<and> q_EvalContext (s_QuerySchemas c8_shared ! 1) = Some 1
   \<and> ctxVars demoHeap 1 ''blocknumber'' = None
   \<and> ctxVars (snd (EvalSave demoExtern c8_shared () c8_result demoHeap)) 1 ''blocknumber''
       = Some (NumberIntVal 100)"
  by (simp add: c8_shared_def c8_result_def demo_defs heap_defs eval_defs)

subsection \<open>What a result leaves behind\<close>

lemma evolves_keeps:
  assumes "evolves T h h'" "varref_ok h c"
  shows "varref_ok h' c \<and> dom (ctxVars h c) \<subseteq> dom (ctxVars h' c)
         \<and> dom (ctxFuns h c) \<subseteq> dom (ctxFuns h' c)"
proof -
  have n: "next_ref h \<le> next_ref h'"
    using assms(1) by (simp add: evolves_def)
  have F: "Functions (ctxs h' c) = Functions (ctxs h c)"
    using assms(1) unfolding evolves_def by blast
  have fm: "dom (fmaps h r) \<subseteq> dom (fmaps h' r)" for r
    using assms(1) unfolding evolves_def by blast
  have vm: "r < next_ref h \<Longrightarrow> dom (vmaps h r) \<subseteq> dom (vmaps h' r)" for r
    using assms(1) unfolding evolves_def by blast
  have V: "Variables (ctxs h' c) = Variables (ctxs h c)
       \<or> (Variables (ctxs h c) = None
           \<and> (\<exists>r. Variables (ctxs h' c) = Some r \<and> r < next_ref h'))"
    using assms(1) unfolding evolves_def by blast
  have funs: "dom (ctxFuns h c) \<subseteq> dom (ctxFuns h' c)"
    using fm by (simp add: ctxFuns_def F split: option.splits)
  show ?thesis
  proof (cases "Variables (ctxs h c)")
    case None
    then have "ctxVars h c = Map.empty" by (simp add: ctxVars_def)
    moreover have "varref_ok h' c"
      using V None n by (auto simp: varref_ok_def)
    ultimately show ?thesis using funs by simp
  next
    case (Some r)
    then have r: "r < next_ref h" using assms(2) by (simp add: varref_ok_def)
    have V': "Variables (ctxs h' c) = Some r" using V Some by simp
    have "varref_ok h' c" using V' r n by (simp add: varref_ok_def)
    moreover have "dom (ctxVars h c) \<subseteq> dom (ctxVars h' c)"
      using vm [OF r] by (simp add: ctxVars_def Some V')
    ultimately show ?thesis using funs by simp
  qed
qed

lemma evolves_EvalSaves: "evolves UNIV h (EvalSaves E s provider results h)"
proof (induction results arbitrary: h)
  case Nil
  then show ?case by (simp add: evolves_refl)
next
  case (Cons res results)
  obtain r h1 where es: "EvalSave E s provider res h = (r, h1)"
    by (cases "EvalSave E s provider res h")
  have "evolves (targets s res) h h1"
    using evolves_EvalSave [of s res h E provider] by (simp add: es)
  then have e1: "evolves UNIV h h1"
    by (rule evolves_mono) simp
  have e2: "evolves UNIV h1 (EvalSaves E s provider results h1)"
    by (rule Cons.IH)
  show ?case
    using e1 evolves_trans [OF e1 e2]
    by (simp add: es split: sum.splits error.splits)
qed

lemma saveQuery_merges:
  assumes c: "q_EvalContext q = Some c" and ok: "varref_ok h c"
    and sq: "saveQuery E provider res q h = (r, h1)" and np: "r \<noteq> Inl Panic"
  shows "dom (GenerateContextVars E res) \<subseteq> dom (ctxVars h1 c)
       \<and> dom (BuildChainFunctions E provider (cr_Chain res) (sint (cr_BlockNumber res)))
           \<subseteq> dom (ctxFuns h1 c)"
proof -
  define h0 where "h0 = ensureVariables c h"
  define fs where "fs = BuildChainFunctions E provider (cr_Chain res) (sint (cr_BlockNumber res))"
  obtain v where v: "Variables (ctxs h0 c) = Some v" "v < next_ref h0"
    using ok by (cases "Variables (ctxs h c)")
      (auto simp: h0_def ensureVariables_def newMap_def varref_ok_def)
  define hA where "hA = h0\<lparr>vmaps := (vmaps h0)(v := vmaps h0 v ++ GenerateContextVars E res)\<rparr>"
  have a1: "assignVars (Some c) (GenerateContextVars E res) h0 = (None, hA)"
    by (simp add: assignVars_def GenerateContextVars_nonempty v hA_def)
  have okA: "varref_ok hA c"
    using v by (simp add: varref_ok_def hA_def)
  have vA: "dom (GenerateContextVars E res) \<subseteq> dom (ctxVars hA c)"
    using v by (auto simp: ctxVars_def hA_def)
  obtain e2 hB where a2: "assignFuns (Some c) fs hA = (e2, hB)"
    by (cases "assignFuns (Some c) fs hA")
  have e2: "e2 = None"
  proof (cases e2)
    case None then show ?thesis .
  next
    case (Some e)
    then have "e = Panic"
      using a2 by (auto simp: assignFuns_def split: if_splits option.splits)
    then show ?thesis
      using sq np by (simp add: saveQuery_def c h0_def [symmetric] a1 fs_def [symmetric] a2 Some)
  qed
  have okB: "varref_ok hB c" and vB: "ctxVars hB c = ctxVars hA c"
    and fB: "dom fs \<subseteq> dom (ctxFuns hB c)"
    using a2 okA
    by (auto simp: assignFuns_def e2 varref_ok_def ctxVars_def ctxFuns_def
        split: if_splits option.splits)
  obtain e3 h3 where a3: "EvalTransforms E q (cr_Type res) (cr_Identifier res) hB = (e3, h3)"
    by (cases "EvalTransforms E q (cr_Type res) (cr_Identifier res) hB")
  have "evolves {c} hB h3"
    using evolves_EvalTransforms [of q "{c}" hB E "cr_Type res" "cr_Identifier res"] c
    by (simp add: a3)
  from evolves_keeps [OF this okB]
  have k: "dom (ctxVars hB c) \<subseteq> dom (ctxVars h3 c)" "dom (ctxFuns hB c) \<subseteq> dom (ctxFuns h3 c)"
    by simp_all
  have "h1 = h3"
    using sq
    by (simp add: saveQuery_def c h0_def [symmetric] a1 fs_def [symmetric] a2 e2 a3
        split: option.splits sum.splits)
  then show ?thesis
    using k vA vB fB unfolding fs_def by (metis subset_trans)
qed

lemma saveLoop_merges:
  assumes "find (\<lambda>q. q_Name q = cr_QueryName res) qs = Some q"
    and "q_EvalContext q = Some c" and "varref_ok h c"
    and "saveLoop E provider res qs outputs h = (r, h1)" and "r \<noteq> Inl Panic"
  shows "dom (GenerateContextVars E res) \<subseteq> dom (ctxVars h1 c)
       \<and> dom (BuildChainFunctions E provider (cr_Chain res) (sint (cr_BlockNumber res)))
           \<subseteq> dom (ctxFuns h1 c)"
  using assms
proof (induction qs arbitrary: outputs h)
  case Nil
  then show ?case by simp
next
  case (Cons x qs)
  show ?case
  proof (cases "q_Name x = cr_QueryName res")
    case False
    then show ?thesis using Cons by simp
  next
    case True
    then have x: "x = q" using Cons.prems(1) by simp
    obtain r0 h0 where sq: "saveQuery E provider res q h = (r0, h0)"
      by (cases "saveQuery E provider res q h")
    show ?thesis
    proof (cases r0)
      case (Inl e)
      then have "r = Inl e" "h1 = h0"
        using Cons.prems(4) True by (simp_all add: x sq)
      then show ?thesis
        using saveQuery_merges [OF Cons.prems(2,3) sq] Cons.prems(5) Inl by simp
    next
      case (Inr out)
      have m: "dom (GenerateContextVars E res) \<subseteq> dom (ctxVars h0 c)
           \<and> dom (BuildChainFunctions E provider (cr_Chain res) (sint (cr_BlockNumber res)))
               \<subseteq> dom (ctxFuns h0 c)"
        using saveQuery_merges [OF Cons.prems(2,3) sq] Inr by simp
      have ok0: "varref_ok h0 c"
        using evolves_keeps [OF evolves_saveQuery [of q "{c}" h E provider res] Cons.prems(3)]
          Cons.prems(2) by (simp add: sq)
      have rest: "saveLoop E provider res qs out h0 = (r, h1)"
        using Cons.prems(4) True by (simp add: x sq Inr)
      have "evolves UNIV h0 h1"
        using evolves_saveLoop [of qs res UNIV h0 E provider out] by (simp add: rest)
      from evolves_keeps [OF this ok0] m show ?thesis by blast
    qed
  qed
qed

lemma EvalSave_Panic:
  "EvalSave E s provider res h = (r, h1) \<Longrightarrow> r \<noteq> Inl Panic \<Longrightarrow>
     fst (saveLoop E provider res (s_QuerySchemas s) Map.empty h) \<noteq> Inl Panic"
  by (auto simp: EvalSave_def split: prod.splits sum.splits if_splits)

lemma keeps_refl: "keeps KV KF h h"
  by (simp add: keeps_def)

lemma keeps_trans: "keeps KV KF h h1 \<Longrightarrow> keeps KV KF h1 h2 \<Longrightarrow> keeps KV KF h h2"
  unfolding keeps_def by (metis le_trans less_le_trans)

lemma keeps_mono: "keeps KV KF h h' \<Longrightarrow> KV \<subseteq> KV' \<Longrightarrow> KF \<subseteq> KF' \<Longrightarrow> keeps KV' KF' h h'"
  unfolding keeps_def by blast

lemma keeps_ensureVariables: "keeps {} {} h (ensureVariables c h)"
  by (auto simp: keeps_def ensureVariables_def newMap_def)

lemma keeps_assignVars: "keeps (dom m) {} h (snd (assignVars ctx m h))"
  by (auto simp: keeps_def assignVars_def map_add_def split: option.splits)

lemma keeps_assignFuns: "keeps {} (dom m) h (snd (assignFuns ctx m h))"
  by (auto simp: keeps_def assignFuns_def map_add_def split: option.splits)

lemma nodeKeys_Cons: "nodeKeys E nodes \<subseteq> nodeKeys E (n # nodes)"
  unfolding nodeKeys_def by fastforce

lemma nodeKeys_hd:
  "DecodeBody E (t_Options t) view = Inr mv \<Longrightarrow> dom mv \<subseteq> nodeKeys E ((name, Some t) # nodes)"
  unfolding nodeKeys_def by fastforce

lemma keeps_transformLoop:
  "keeps (nodeKeys E nodes) {} h (snd (transformLoop E ctx identifier nodes h))"
proof (induction nodes arbitrary: h)
  case Nil
  then show ?case by (simp add: keeps_refl)
next
  case (Cons n nodes)
  obtain name tr where n: "n = (name, tr)" by (cases n)
  have rest: "keeps (nodeKeys E (n # nodes)) {} h1 (snd (transformLoop E ctx identifier nodes h1))" for h1
    by (rule keeps_mono [OF Cons.IH nodeKeys_Cons]) simp
  show ?case
  proof (cases tr)
    case None
    then show ?thesis by (simp add: n keeps_refl)
  next
    case (Some t)
    show ?thesis
    proof (cases "name = identifier")
      case False
      then show ?thesis using rest [of h] by (simp add: n Some)
    next
      case True
      show ?thesis
      proof (cases "DecodeBody E (t_Options t) (readCtx h ctx)")
        case (Inl d)
        then show ?thesis by (simp add: n Some True keeps_refl)
      next
        case (Inr mv)
        obtain e h1 where a: "assignVars ctx mv h = (e, h1)" by (cases "assignVars ctx mv h")
        have "keeps (dom mv) {} h h1"
          using keeps_assignVars [of mv h ctx] by (simp add: a)
        then have k1: "keeps (nodeKeys E (n # nodes)) {} h h1"
          using nodeKeys_hd [OF Inr, of name nodes] by (auto simp: n Some intro: keeps_mono)
        show ?thesis
        proof (cases e)
          case None
          then show ?thesis
            using keeps_trans [OF k1 rest [of h1]] by (simp add: n Some True Inr a)
        next
          case (Some err)
          then show ?thesis
            using k1 by (simp add: n \<open>tr = Some t\<close> True Inr a)
        qed
      qed
    qed
  qed
qed

lemma keeps_EvalTransforms:
  "keeps (nodeKeys E (transformNodes E q tp)) {} h (snd (EvalTransforms E q tp identifier h))"
  by (simp add: EvalTransforms_nodes keeps_transformLoop)

lemma keeps_saveQuery:
  "keeps (dom (GenerateContextVars E res) \<union> nodeKeys E (transformNodes E q (cr_Type res)))
     (resultFuns E provider res) h (snd (saveQuery E provider res q h))"
proof (cases "q_EvalContext q")
  case None
  then show ?thesis by (simp add: saveQuery_def keeps_refl)
next
  case (Some c)
  let ?KV = "dom (GenerateContextVars E res) \<union> nodeKeys E (transformNodes E q (cr_Type res))"
  let ?KF = "resultFuns E provider res"
  define fs where "fs = BuildChainFunctions E provider (cr_Chain res) (sint (cr_BlockNumber res))"
  obtain e1 h1 where a1: "assignVars (Some c) (GenerateContextVars E res) (ensureVariables c h) = (e1, h1)"
    by (cases "assignVars (Some c) (GenerateContextVars E res) (ensureVariables c h)")
  obtain e2 h2 where a2: "assignFuns (Some c) fs h1 = (e2, h2)"
    by (cases "assignFuns (Some c) fs h1")
  obtain e3 h3 where a3: "EvalTransforms E q (cr_Type res) (cr_Identifier res) h2 = (e3, h3)"
    by (cases "EvalTransforms E q (cr_Type res) (cr_Identifier res) h2")
  have s0: "keeps ?KV ?KF h (ensureVariables c h)"
    by (rule keeps_mono [OF keeps_ensureVariables]) simp_all
  have "keeps (dom (GenerateContextVars E res)) {} (ensureVariables c h) h1"
    using keeps_assignVars [of "GenerateContextVars E res" "ensureVariables c h" "Some c"]
    by (simp add: a1)
  then have "keeps ?KV ?KF (ensureVariables c h) h1"
    by (rule keeps_mono) simp_all
  then have s1: "keeps ?KV ?KF h h1"
    by (rule keeps_trans [OF s0])
  have "keeps {} (dom fs) h1 h2"
    using keeps_assignFuns [of fs h1 "Some c"] by (simp add: a2)
  then have "keeps ?KV ?KF h1 h2"
    by (rule keeps_mono) (simp_all add: resultFuns_def fs_def)
  then have s2: "keeps ?KV ?KF h h2"
    by (rule keeps_trans [OF s1])
  have "keeps (nodeKeys E (transformNodes E q (cr_Type res))) {} h2 h3"
    using keeps_EvalTransforms [of E q "cr_Type res" h2 "cr_Identifier res"] by (simp add: a3)
  then have "keeps ?KV ?KF h2 h3"
    by (rule keeps_mono) simp_all
  then have s3: "keeps ?KV ?KF h h3"
    by (rule keeps_trans [OF s2])
  show ?thesis
    using s1 s2 s3
    by (simp add: saveQuery_def Some a1 fs_def [symmetric] a2 a3 split: option.splits sum.splits)
qed

lemma keeps_saveLoop:
  "keeps (dom (GenerateContextVars E res)
          \<union> {k. \<exists>q\<in>set qs. q_Name q = cr_QueryName res
                   \<and> k \<in> nodeKeys E (transformNodes E q (cr_Type res))})
     (resultFuns E provider res) h (snd (saveLoop E provider res qs outputs h))"
proof (induction qs arbitrary: outputs h)
  case Nil
  then show ?case by (simp add: keeps_refl)
next
  case (Cons q qs)
  let ?K = "\<lambda>qs. dom (GenerateContextVars E res)
          \<union> {k. \<exists>q\<in>set qs. q_Name q = cr_QueryName res
                   \<and> k \<in> nodeKeys E (transformNodes E q (cr_Type res))}"
  have rest: "keeps (?K (q # qs)) (resultFuns E provider res) h1
      (snd (saveLoop E provider res qs out h1))" for h1 out
    by (rule keeps_mono [OF Cons.IH]) auto
  show ?case
  proof (cases "q_Name q = cr_QueryName res")
    case False
    then show ?thesis using rest [of h outputs] by simp
  next
    case True
    obtain r h1 where sq: "saveQuery E provider res q h = (r, h1)"
      by (cases "saveQuery E provider res q h")
    have "keeps (dom (GenerateContextVars E res) \<union> nodeKeys E (transformNodes E q (cr_Type res)))
        (resultFuns E provider res) h h1"
      using keeps_saveQuery [of E res q provider h] by (simp add: sq)
    then have k1: "keeps (?K (q # qs)) (resultFuns E provider res) h h1"
      by (rule keeps_mono) (use True in auto)
    show ?thesis
    proof (cases r)
      case (Inl e)
      then show ?thesis using k1 by (simp add: True sq)
    next
      case (Inr out)
      then show ?thesis
        using keeps_trans [OF k1 rest [of h1 out]] by (simp add: True sq)
    qed
  qed
qed

lemma keeps_EvalSave:
  "keeps (resultKeys E s res) (resultFuns E provider res) h (snd (EvalSave E s provider res h))"
  unfolding snd_EvalSave resultKeys_def by (rule keeps_saveLoop)

lemma keeps_EvalSaves:
  "keeps (\<Union>res\<in>set results. resultKeys E s res) (\<Union>res\<in>set results. resultFuns E provider res)
     h (EvalSaves E s provider results h)"
proof (induction results arbitrary: h)
  case Nil
  then show ?case by (simp add: keeps_refl)
next
  case (Cons res results)
  let ?KV = "\<Union>res\<in>set (res # results). resultKeys E s res"
  let ?KF = "\<Union>res\<in>set (res # results). resultFuns E provider res"
  obtain r h1 where es: "EvalSave E s provider res h = (r, h1)"
    by (cases "EvalSave E s provider res h")
  have "keeps (resultKeys E s res) (resultFuns E provider res) h h1"
    using keeps_EvalSave [of E s res provider h] by (simp add: es)
  then have k1: "keeps ?KV ?KF h h1"
    by (rule keeps_mono) auto
  have k2: "keeps ?KV ?KF h1 (EvalSaves E s provider results h1)"
    by (rule keeps_mono [OF Cons.IH]) auto
  show ?case
    using k1 keeps_trans [OF k1 k2]
    by (simp add: es split: sum.splits error.splits)
qed

lemma keeps_values:
  assumes "keeps KV KF h h'" "evolves T h h'" "varref_ok h c"
  shows "(\<forall>k v. k \<notin> KV \<longrightarrow> ctxVars h c k = Some v \<longrightarrow> ctxVars h' c k = Some v)
       \<and> (\<forall>k. k \<notin> KF \<longrightarrow> ctxFuns h' c k = ctxFuns h c k)"
proof -
  have F: "Functions (ctxs h' c) = Functions (ctxs h c)"
    using assms(2) unfolding evolves_def by blast
  have fm: "k \<notin> KF \<Longrightarrow> fmaps h' r k = fmaps h r k" for r k
    using assms(1) unfolding keeps_def by blast
  have funs: "\<forall>k. k \<notin> KF \<longrightarrow> ctxFuns h' c k = ctxFuns h c k"
    using fm by (simp add: ctxFuns_def F split: option.splits)
  show ?thesis
  proof (cases "Variables (ctxs h c)")
    case None
    then show ?thesis using funs by (simp add: ctxVars_def)
  next
    case (Some r)
    then have r: "r < next_ref h" using assms(3) by (simp add: varref_ok_def)
    have "Variables (ctxs h' c) = Variables (ctxs h c)
       \<or> (Variables (ctxs h c) = None
           \<and> (\<exists>r. Variables (ctxs h' c) = Some r \<and> r < next_ref h'))"
      using assms(2) unfolding evolves_def by blast
    then have V: "Variables (ctxs h' c) = Some r" using Some by simp
    have "k \<notin> KV \<Longrightarrow> vmaps h' r k = vmaps h r k" for k
      using assms(1) r unfolding keeps_def by blast
    then show ?thesis
      using funs by (simp add: ctxVars_def Some V)
  qed
qed

text \<open>
  Claim C10.  After a call of \<open>EvalSave\<close> that does not panic, the context of the first
  query named by the result holds every variable derived from the result and every chain
  function registered for it.  No later sequence of calls removes a name from its variable
  table or its function table, and an entry keeps its value as long as no later call
  writes the same name.
\<close>

theorem EvalSave_context_persists:
  assumes "find (\<lambda>q. q_Name q = cr_QueryName res) (s_QuerySchemas s) = Some q"
    and "q_EvalContext q = Some c"
    and "varref_ok h c"
    and "EvalSave E s provider res h = (r, h1)"
    and "r \<noteq> Inl Panic"
  shows "dom (GenerateContextVars E res) \<subseteq> dom (ctxVars h1 c)
       \<and> resultFuns E provider res \<subseteq> dom (ctxFuns h1 c)
       \<and> (\<forall>later. dom (ctxVars h1 c) \<subseteq> dom (ctxVars (EvalSaves E s provider later h1) c)
                 \<and> dom (ctxFuns h1 c) \<subseteq> dom (ctxFuns (EvalSaves E s provider later h1) c))
       \<and> (\<forall>later k v. k \<notin> (\<Union>res'\<in>set later. resultKeys E s res') \<longrightarrow>
              ctxVars h1 c k = Some v \<longrightarrow> ctxVars (EvalSaves E s provider later h1) c k = Some v)
       \<and> (\<forall>later k. k \<notin> (\<Union>res'\<in>set later. resultFuns E provider res') \<longrightarrow>
              ctxFuns (EvalSaves E s provider later h1) c k = ctxFuns h1 c k)"
proof -
  obtain r0 where sl: "saveLoop E provider res (s_QuerySchemas s) Map.empty h = (r0, h1)"
    using assms(4) snd_EvalSave [of E s provider res h]
    by (cases "saveLoop E provider res (s_QuerySchemas s) Map.empty h") simp
  have "r0 \<noteq> Inl Panic"
    using EvalSave_Panic [OF assms(4,5)] by (simp add: sl)
  from saveLoop_merges [OF assms(1-3) sl this]
  have m: "dom (GenerateContextVars E res) \<subseteq> dom (ctxVars h1 c)
       \<and> resultFuns E provider res \<subseteq> dom (ctxFuns h1 c)"
    by (simp add: resultFuns_def)
  have "evolves (targets s res) h h1"
    using evolves_EvalSave [of s res h E provider] assms(4) by simp
  from evolves_keeps [OF this assms(3)] have ok1: "varref_ok h1 c" by simp
  have grow: "dom (ctxVars h1 c) \<subseteq> dom (ctxVars (EvalSaves E s provider later h1) c)
      \<and> dom (ctxFuns h1 c) \<subseteq> dom (ctxFuns (EvalSaves E s provider later h1) c)" for later
    using evolves_keeps [OF evolves_EvalSaves ok1, of E s provider later] by simp
  have vals: "(\<forall>k v. k \<notin> (\<Union>res'\<in>set later. resultKeys E s res') \<longrightarrow>
              ctxVars h1 c k = Some v \<longrightarrow> ctxVars (EvalSaves E s provider later h1) c k = Some v)
       \<and> (\<forall>k. k \<notin> (\<Union>res'\<in>set later. resultFuns E provider res') \<longrightarrow>
              ctxFuns (EvalSaves E s provider later h1) c k = ctxFuns h1 c k)" for later
    by (rule keeps_values [OF keeps_EvalSaves evolves_EvalSaves ok1])
  have c3: "\<forall>later. dom (ctxVars h1 c) \<subseteq> dom (ctxVars (EvalSaves E s provider later h1) c)
                 \<and> dom (ctxFuns h1 c) \<subseteq> dom (ctxFuns (EvalSaves E s provider later h1) c)"
    using grow by (intro allI)
  have c4: "\<forall>later k v. k \<notin> (\<Union>res'\<in>set later. resultKeys E s res') \<longrightarrow>
              ctxVars h1 c k = Some v \<longrightarrow> ctxVars (EvalSaves E s provider later h1) c k = Some v"
    by (intro allI impI) (rule vals [THEN conjunct1, rule_format])
  have c5: "\<forall>later k. k \<notin> (\<Union>res'\<in>set later. resultFuns E provider res') \<longrightarrow>
              ctxFuns (EvalSaves E s provider later h1) c k = ctxFuns h1 c k"
    by (intro allI impI) (rule vals [THEN conjunct2, rule_format])
  show ?thesis
    using m [THEN conjunct1] m [THEN conjunct2] c3 c4 c5 by (intro conjI)
qed

text \<open>
  The input \<open>amount = 42\<close> of a method result is still there, with its value, after
  a later event result, and so is a function \<open>balance\<close>.
\<close>

theorem EvalSave_context_persists_witness:
  "find (\<lambda>q. q_Name q = cr_QueryName c10_first) (s_QuerySchemas c10_schema)
     = Some (hd (s_QuerySchemas c10_schema))
   \<and> varref_ok demoHeap 1
   \<and> fst (EvalSave demoExtern c10_schema () c10_first demoHeap) = Inr (Some [''block'' \<mapsto> NumberIntVal 100])
   \<and> ''amount'' \<notin> resultKeys demoExtern c10_schema c10_later
   \<and> ctxVars (EvalSaves demoExtern c10_schema () [c10_later]
         (snd (EvalSave demoExtern c10_schema () c10_first demoHeap))) 1 ''amount''
       = Some (NumberIntVal 42)
   \<and> ''balance'' \<in> dom (ctxFuns (EvalSaves demoExtern c10_schema () [c10_later]
         (snd (EvalSave demoExtern c10_schema () c10_first demoHeap))) 1)"
proof -
  define h1 where "h1 = snd (EvalSave demoExtern c10_schema () c10_first demoHeap)"
  have f: "find (\<lambda>q. q_Name q = cr_QueryName c10_first) (s_QuerySchemas c10_schema)
      = Some (hd (s_QuerySchemas c10_schema))"
    by (simp add: c10_schema_def c10_first_def demo_defs)
  have c: "q_EvalContext (hd (s_QuerySchemas c10_schema)) = Some 1"
    by (simp add: c10_schema_def demo_defs)
  have ok: "varref_ok demoHeap 1"
    by (simp add: varref_ok_def demoHeap_def)
  have r: "fst (EvalSave demoExtern c10_schema () c10_first demoHeap)
      = Inr (Some [''block'' \<mapsto> NumberIntVal 100])"
    by (simp add: c10_schema_def c10_first_def demo_defs heap_defs eval_defs)
  then have e: "EvalSave demoExtern c10_schema () c10_first demoHeap
      = (Inr (Some [''block'' \<mapsto> NumberIntVal 100]), h1)"
    by (simp add: prod_eq_iff h1_def)
  have np: "Inr (Some [''block'' \<mapsto> NumberIntVal 100]) \<noteq> (Inl Panic :: error + (string \<rightharpoonup> cty) option)"
    by simp
  have a1: "ctxVars h1 1 ''amount'' = Some (NumberIntVal 42)"
    unfolding h1_def
    by (simp add: c10_schema_def c10_first_def demo_defs heap_defs eval_defs)
  have nk: "''amount'' \<notin> resultKeys demoExtern c10_schema c10_later"
    by (simp add: resultKeys_def nodeKeys_def transformNodes_def c10_schema_def c10_later_def
        demo_defs eval_defs dom_def)
  then have nk': "''amount'' \<notin> (\<Union>res'\<in>set [c10_later]. resultKeys demoExtern c10_schema res')"
    by simp
  have b: "''balance'' \<in> resultFuns demoExtern () c10_first"
    by (simp add: resultFuns_def demo_defs)
  note all = EvalSave_context_persists [OF f c ok e np]
  note funs = all [THEN conjunct2, THEN conjunct1]
  note grow = all [THEN conjunct2, THEN conjunct2, THEN conjunct1,
      THEN spec [where x = "[c10_later]"]]
  note vals = all [THEN conjunct2, THEN conjunct2, THEN conjunct2, THEN conjunct1, rule_format]
  have v: "ctxVars (EvalSaves demoExtern c10_schema () [c10_later] h1) 1 ''amount''
      = Some (NumberIntVal 42)"
    using nk' a1 by (rule vals)
  have "''balance'' \<in> dom (ctxFuns h1 1)"
    using funs b by (rule subsetD)
  then have w: "''balance'' \<in> dom (ctxFuns (EvalSaves demoExtern c10_schema () [c10_later] h1) 1)"
    using grow [THEN conjunct2] by (rule rev_subsetD)
  show ?thesis
    using f ok r nk v w unfolding h1_def by (intro conjI)
qed

subsection \<open>Loop expansion and NewSchema\<close>

lemma above_refl: "above h h"
  by (simp add: above_def)

lemma above_trans: "above h h1 \<Longrightarrow> above h1 h2 \<Longrightarrow> above h h2"
  by (auto simp: above_def)

lemma above_loopAlloc: "above h (loopAlloc L item h)"
  by (simp add: above_def loopAlloc_def InitialContext_def newMap_def newContext_def)


lemma expandLoop_step:
  "expandLoop L template (item # items) qs h =
     (case DecodeLoopLevel L template (loopView L h item) of
        Inl d \<Rightarrow> (Inl (LibErr d), loopAlloc L item h)
      | Inr queries \<Rightarrow> expandLoop L template items (qs @ queries) (loopAlloc L item h))"
proof -
  have v: "readCtx (loopAlloc L item h) (Some (Suc (Suc (next_ref h)))) = loopView L h item"
    by (simp add: loopAlloc_def loopView_def builtins_def InitialContext_def newMap_def
        newContext_def readCtx_def ctxVars_def ctxFuns_def split: option.splits)
  have "expandLoop L template (item # items) qs h =
     (case DecodeLoopLevel L template (readCtx (loopAlloc L item h) (Some (Suc (Suc (next_ref h))))) of
        Inl d \<Rightarrow> (Inl (LibErr d), loopAlloc L item h)
      | Inr queries \<Rightarrow> expandLoop L template items (qs @ queries) (loopAlloc L item h))"
    by (simp add: loopAlloc_def InitialContext_def newMap_def newContext_def split: sum.splits)
  then show ?thesis by (simp only: v)
qed

lemma above_expandLoop: "above h (snd (expandLoop L template items qs h))"
proof (induction items arbitrary: qs h)
  case Nil
  then show ?case by (simp add: above_refl)
next
  case (Cons item items)
  have a: "above h (loopAlloc L item h)" by (rule above_loopAlloc)
  show ?case
  proof (cases "DecodeLoopLevel L template (loopView L h item)")
    case (Inl d)
    then show ?thesis using a by (simp add: expandLoop_step del: expandLoop.simps)
  next
    case (Inr queries)
    have "above (loopAlloc L item h)
            (snd (expandLoop L template items (qs @ queries) (loopAlloc L item h)))"
      by (rule Cons.IH)
    then show ?thesis
      using above_trans [OF a] by (simp add: expandLoop_step Inr del: expandLoop.simps)
  qed
qed



lemma attachQueries_ctx:
  "attachQueries L confDir ctx qs = Inr qs' \<Longrightarrow> \<forall>q\<in>set qs'. q_EvalContext q = ctx"
  by (induction qs arbitrary: qs') (auto split: sum.splits)

lemma schemaHeap_props:
  "next_ref (schemaHeap L vars h) = Suc (Suc (next_ref h))"
  "fmaps (schemaHeap L vars h) = fmaps h"
  "ctxs (schemaHeap L vars h) (Suc (next_ref h)) =
     \<lparr>Variables = Some (next_ref h), Functions = dsl_Functions L\<rparr>"
  "vmaps (schemaHeap L vars h) (next_ref h) = [''now'' \<mapsto> Now L] ++ vars"
  by (simp_all add: schemaHeap_def InitialContext_def newMap_def newContext_def assignVars_def)

lemma schemaHeap_view:
  "readCtx (schemaHeap L vars h) (Some (Suc (next_ref h))) = schemaView L vars h"
  by (simp add: readCtx_def ctxVars_def ctxFuns_def schemaHeap_props schemaView_def builtins_def
      split: option.splits)


lemma NewSchema_stages:
  "NewSchema L confDir h =
     (case ReadFile L (Join L confDir ''schema.hcl'') of
        Inl e \<Rightarrow> (Inl (LibErr e), h)
      | Inr f \<Rightarrow>
          (case ParseConfig L f (Join L confDir ''schema.hcl'') of
             Inl d \<Rightarrow> (Inl (LibErr d), h)
           | Inr fileBody \<Rightarrow>
               (case DecodeSchema L fileBody (schemaView L Map.empty h) of
                  Inl d \<Rightarrow> (Inl (LibErr d), schemaHeap L Map.empty h)
                | Inr decoded \<Rightarrow>
                    loadQueries L confDir
                      (decoded\<lparr>s_QuerySchemas := [], s_EvalContext := Some (Suc (next_ref h))\<rparr>)
                      (schemaHeap L (s_Variables decoded) h))))"
  by (simp add: NewSchema_def schemaHeap_def schemaView_def InitialContext_def newMap_def
      newContext_def assignVars_def readCtx_def ctxVars_def ctxFuns_def builtins_def
      split: sum.splits option.splits)


lemmas loader_defs =
  demoLoader_def demoLoaderBad_def demoLoopLevel_def demoDecoded_def demoLoop_def demoDirect_def
  startHeap_def NewSchema_def loadQueries_def InitialContext_def loadAbi_def



text \<open>
  Claim C4, as amended.  After a successful load every query, declared directly or
  expanded from the loop, holds the pointer to the schema's one context, and that context
  holds \<open>now\<close>, the schema's variables and the builtin functions.
\<close>

theorem NewSchema_shared_context:
  assumes "NewSchema L confDir h = (Inr s, h')"
  shows "s_EvalContext s = Some (Suc (next_ref h))
       \<and> (\<forall>q\<in>set (s_QuerySchemas s). q_EvalContext q = s_EvalContext s)
       \<and> readCtx h' (s_EvalContext s) = schemaView L (s_Variables s) h"
proof -
  from assms obtain f where f: "ReadFile L (Join L confDir ''schema.hcl'') = Inr f"
    by (cases "ReadFile L (Join L confDir ''schema.hcl'')") (simp_all add: NewSchema_stages)
  from assms obtain fileBody where p: "ParseConfig L f (Join L confDir ''schema.hcl'') = Inr fileBody"
    by (cases "ParseConfig L f (Join L confDir ''schema.hcl'')") (simp_all add: NewSchema_stages f)
  from assms obtain decoded where d: "DecodeSchema L fileBody (schemaView L Map.empty h) = Inr decoded"
    by (cases "DecodeSchema L fileBody (schemaView L Map.empty h)")
       (simp_all add: NewSchema_stages f p)
  define s0 where
    "s0 = decoded\<lparr>s_QuerySchemas := [], s_EvalContext := Some (Suc (next_ref h))\<rparr>"
  define h3 where "h3 = schemaHeap L (s_Variables decoded) h"
  have lq: "loadQueries L confDir s0 h3 = (Inr s, h')"
    using assms by (simp add: NewSchema_stages f p d s0_def h3_def)
  obtain loop queries where
    top: "DecodeTopLevel L (s_SchemaConfig s0) (readCtx h3 (s_EvalContext s0)) = Inr (loop, queries)"
    using lq
    by (cases "DecodeTopLevel L (s_SchemaConfig s0) (readCtx h3 (s_EvalContext s0))")
       (auto simp: loadQueries_def)
  define run where "run =
    (case loop of
       None \<Rightarrow> (Inr (s_QuerySchemas s0 @ queries), h3)
     | Some l \<Rightarrow> expandLoop L (l_QuerySchema l) (l_Items l) (s_QuerySchemas s0 @ queries) h3)"
  have ab: "above h3 (snd run)"
    unfolding run_def by (cases loop) (simp_all add: above_refl above_expandLoop)
  obtain r hr where run: "run = (r, hr)" by (cases run)
  have lq': "(case r of
         Inl e \<Rightarrow> (Inl e, hr)
       | Inr qs \<Rightarrow>
           (case attachQueries L confDir (s_EvalContext s0) qs of
              Inl e \<Rightarrow> (Inl e, hr)
            | Inr qs' \<Rightarrow> (Inr (s0\<lparr>s_QuerySchemas := qs'\<rparr>), hr))) = (Inr s, h')"
    using lq run by (simp add: loadQueries_def top run_def [symmetric])
  from lq' obtain qs where r: "r = Inr qs" by (cases r) simp_all
  from lq' obtain qs' where
    at: "attachQueries L confDir (s_EvalContext s0) qs = Inr qs'"
    and s: "s = s0\<lparr>s_QuerySchemas := qs'\<rparr>" and h': "h' = hr"
    by (cases "attachQueries L confDir (s_EvalContext s0) qs") (auto simp: r)
  have c: "s_EvalContext s = Some (Suc (next_ref h))"
    by (simp add: s s0_def)
  have q: "\<forall>q\<in>set (s_QuerySchemas s). q_EvalContext q = s_EvalContext s"
    using attachQueries_ctx [OF at] by (simp add: s)
  have ab': "above h3 h'"
    using ab by (simp add: run h')
  have lt: "next_ref h < next_ref h3" "Suc (next_ref h) < next_ref h3"
    by (simp_all add: h3_def schemaHeap_props)
  have "ctxs h' (Suc (next_ref h)) = ctxs h3 (Suc (next_ref h))"
       "vmaps h' (next_ref h) = vmaps h3 (next_ref h)" "fmaps h' = fmaps h3"
    using ab' lt by (simp_all add: above_def)
  then have "readCtx h' (Some (Suc (next_ref h))) = readCtx h3 (Some (Suc (next_ref h)))"
    by (simp add: readCtx_def ctxVars_def ctxFuns_def h3_def schemaHeap_props
        split: option.splits)
  then have v: "readCtx h' (s_EvalContext s) = schemaView L (s_Variables s) h"
    by (simp add: c h3_def schemaHeap_view s s0_def)
  from c q v show ?thesis by simp
qed

theorem NewSchema_shared_context_witness:
  "\<not> isl (fst (NewSchema demoLoader ''conf'' startHeap))
   \<and> list_all (\<lambda>q. q_EvalContext q = Some 1)
         (s_QuerySchemas (projr (fst (NewSchema demoLoader ''conf'' startHeap))))
   \<and> readCtx (snd (NewSchema demoLoader ''conf'' startHeap)) (Some 1)
       = Some ([''now'' \<mapsto> NumberIntVal 1700000000, ''threshold'' \<mapsto> NumberIntVal 5],
               [''upper'' \<mapsto> (''upper'', [], 0)])"
proof -
  define N where "N = NewSchema demoLoader ''conf'' startHeap"
  have ok: "\<not> isl (fst N)"
    unfolding N_def by (simp add: loader_defs demo_defs heap_defs)
  then have e: "NewSchema demoLoader ''conf'' startHeap = (Inr (projr (fst N)), snd N)"
    by (cases "fst N") (simp_all add: N_def prod_eq_iff)
  have v: "s_Variables (projr (fst N)) = [''threshold'' \<mapsto> NumberIntVal 5]"
    unfolding N_def by (simp add: loader_defs demo_defs heap_defs)
  have n: "next_ref startHeap = 0" by (simp add: startHeap_def)
  have sv: "schemaView demoLoader [''threshold'' \<mapsto> NumberIntVal 5] startHeap
      = Some ([''now'' \<mapsto> NumberIntVal 1700000000, ''threshold'' \<mapsto> NumberIntVal 5],
               [''upper'' \<mapsto> (''upper'', [], 0)])"
    by (simp add: schemaView_def builtins_def demoLoader_def startHeap_def)
  note all = NewSchema_shared_context [OF e, unfolded n]
  have c: "s_EvalContext (projr (fst N)) = Some (Suc 0)"
    using all by blast
  have q: "\<forall>q\<in>set (s_QuerySchemas (projr (fst N))). q_EvalContext q = s_EvalContext (projr (fst N))"
    using all by blast
  have r: "readCtx (snd N) (s_EvalContext (projr (fst N)))
          = schemaView demoLoader (s_Variables (projr (fst N))) startHeap"
    using all by blast
  have q': "list_all (\<lambda>q. q_EvalContext q = Some 1) (s_QuerySchemas (projr (fst N)))"
    using q c by (simp add: list_all_iff)
  have r': "readCtx (snd N) (Some 1)
      = Some ([''now'' \<mapsto> NumberIntVal 1700000000, ''threshold'' \<mapsto> NumberIntVal 5],
               [''upper'' \<mapsto> (''upper'', [], 0)])"
    using r c v sv by simp
  show ?thesis
    using ok q' r' unfolding N_def by blast
qed

text \<open>
  Claim C4 as stated fails: the loop-expanded queries \<open>0x0a\<close> and \<open>0x0b\<close> hold the
  schema's context (reference 1), which has no variable \<open>item\<close>; the context of the
  first iteration (reference 4) is held by no query.
\<close>

theorem NewSchema_loop_query_context:
  "\<not> isl (fst (NewSchema demoLoader ''conf'' startHeap))
   \<and> map q_Name (s_QuerySchemas (projr (fst (NewSchema demoLoader ''conf'' startHeap))))
       = [''direct'', ''0x0a'', ''0x0b'']
   \<and> map q_EvalContext (s_QuerySchemas (projr (fst (NewSchema demoLoader ''conf'' startHeap))))
       = [Some 1, Some 1, Some 1]
   \<and> s_EvalContext (projr (fst (NewSchema demoLoader ''conf'' startHeap))) = Some 1
   \<and> ctxVars (snd (NewSchema demoLoader ''conf'' startHeap)) 1 ''item'' = None
   \<and> ctxVars (snd (NewSchema demoLoader ''conf'' startHeap)) 1 ''threshold'' = Some (NumberIntVal 5)
   \<and> ctxVars (snd (NewSchema demoLoader ''conf'' startHeap)) 4 ''item'' = Some (StringVal ''0x0a'')"
  by (simp add: loader_defs demo_defs heap_defs)

end
